theory Spec2Isabelle
  imports Complex_Main "HOL-Library.Char_ord" "HOL-Library.List_Lexorder"
begin

section \<open>Python values used by the payroll pipeline\<close>

text \<open>
  The program is \<^verbatim>\<open>src/services/payroll_service.py\<close> (class \<^verbatim>\<open>PayrollService\<close>),
  \<^verbatim>\<open>src/controllers/attendance_controller.py\<close> (\<^verbatim>\<open>compute_hours_for_day\<close>) and the
  schema of \<^verbatim>\<open>src/models/database.py\<close>.

  A Python float is modelled as the real number it denotes, and the arithmetic of the
  payroll calculator and of the attendance controller as IEEE double arithmetic: every
  product, quotient, sum and difference is the
  exact result rounded to the nearest double, ties going to the even significand
  (\<open>fl\<close>), and \<^verbatim>\<open>round(x, 2)\<close> is the double nearest to the exact value of \<open>x\<close>
  rounded to a multiple of 1/100, ties going to the even neighbour. Doubles beyond
  \<open>2 ^ 1024\<close> (where Python gives \<^verbatim>\<open>inf\<close>) are outside the model. In the daily
  buckets of the payroll service the hours are kept as exact quotients of a duration by
  3600 and as exact sums. Text is a list of bytes; SQLite compares \<^verbatim>\<open>TEXT\<close> values
  bytewise, which is the lexicographic order on such lists.
\<close>

datatype py_error = ValueError | TypeError

subsection \<open>Doubles and \<^verbatim>\<open>round(x, 2)\<close>\<close>

definition rne :: "real \<Rightarrow> int" where
  \<comment> \<open>the nearest integer, a tie going to the even one\<close>
  "rne y =
     (let n = \<lfloor>y\<rfloor>; f = y - of_int n
      in if f < 1 / 2 then n
         else if 1 / 2 < f then n + 1
         else if even n then n else n + 1)"

function ulp_up :: "nat \<Rightarrow> real \<Rightarrow> real \<Rightarrow> real" where
  \<comment> \<open>the spacing of the doubles around \<open>x \<ge> 1\<close>: \<open>u\<close> is doubled until \<open>x < u * 2 ^ 53\<close>;
      \<open>n\<close> bounds the exponent\<close>
  "ulp_up n x u = (if n = 0 \<or> x < u * 2 ^ 53 then u else ulp_up (n - 1) x (u * 2))"
  by pat_completeness auto
termination
  by (relation "measure (\<lambda>(n, x, u). n)") auto

function ulp_down :: "nat \<Rightarrow> real \<Rightarrow> real \<Rightarrow> real" where
  \<comment> \<open>the same for \<open>0 < x < 1\<close>: \<open>u\<close> is halved until \<open>u * 2 ^ 52 \<le> x\<close>; the bound on \<open>n\<close>
      leaves the subnormal numbers with the spacing \<open>2 ^ -1074\<close>\<close>
  "ulp_down n x u = (if n = 0 \<or> u * 2 ^ 52 \<le> x then u else ulp_down (n - 1) x (u / 2))"
  by pat_completeness auto
termination
  by (relation "measure (\<lambda>(n, x, u). n)") auto

declare ulp_up.simps [simp del] ulp_down.simps [simp del]

definition ulp :: "real \<Rightarrow> real" where
  "ulp x = (if 1 \<le> x then ulp_up 1023 x (1 / 2 ^ 52) else ulp_down 1021 x (1 / 2 ^ 53))"

definition fl :: "real \<Rightarrow> real" where
  \<comment> \<open>the double nearest to \<open>x\<close>, a tie going to the even significand\<close>
  "fl x = (if x = 0 then 0 else let u = ulp \<bar>x\<bar> in of_int (rne (x / u)) * u)"

definition py_round2 :: "real \<Rightarrow> real" where
  \<comment> \<open>\<^verbatim>\<open>round(x, 2)\<close> on a float: the exact value of \<open>x\<close> correctly rounded to two
      decimals, then the double nearest to that decimal\<close>
  "py_round2 x = fl (of_int (rne (x * 100)) / 100)"

subsection \<open>Formatting integers: \<^verbatim>\<open>f"{n:04d}"\<close> and \<^verbatim>\<open>f"{n:02d}"\<close>\<close>

definition digit_char :: "nat \<Rightarrow> char" where
  "digit_char n = ''0123456789'' ! n"

function digits :: "nat \<Rightarrow> string" where
  "digits n = (if n < 10 then [digit_char n] else digits (n div 10) @ [digit_char (n mod 10)])"
  by pat_completeness auto
termination
  by (relation "measure id") auto

declare digits.simps [simp del]

definition fmt_0d :: "nat \<Rightarrow> int \<Rightarrow> string" where
  \<comment> \<open>zero padding to width \<open>w\<close>; the sign of a negative number counts in the width\<close>
  "fmt_0d w n =
     (if n < 0
      then CHR ''-'' # replicate (w - 1 - length (digits (nat (- n)))) CHR ''0'' @ digits (nat (- n))
      else replicate (w - length (digits (nat n))) CHR ''0'' @ digits (nat n))"

subsection \<open>\<^verbatim>\<open>datetime\<close>\<close>

record datetime =
  dt_year :: int
  dt_month :: int
  dt_day :: int
  dt_hour :: int
  dt_minute :: int
  dt_second :: int
  dt_microsecond :: int
  dt_tzoffset :: "int option"
    \<comment> \<open>\<open>None\<close> for a naive datetime, the UTC offset in microseconds for an aware one\<close>

definition is_leap :: "int \<Rightarrow> bool" where
  "is_leap y = (y mod 4 = 0 \<and> (y mod 100 \<noteq> 0 \<or> y mod 400 = 0))"

definition days_before_year :: "int \<Rightarrow> int" where
  "days_before_year year = (let y = year - 1 in y * 365 + y div 4 - y div 100 + y div 400)"

definition days_in_month :: "int \<Rightarrow> int \<Rightarrow> int" where
  "days_in_month y m =
     (if m = 2 then (if is_leap y then 29 else 28)
      else if m = 4 \<or> m = 6 \<or> m = 9 \<or> m = 11 then 30 else 31)"

definition days_before_month :: "int \<Rightarrow> int \<Rightarrow> int" where
  "days_before_month y m = (\<Sum>k \<leftarrow> [1 ..< nat m]. days_in_month y (int k))"

definition ymd2ord :: "int \<Rightarrow> int \<Rightarrow> int \<Rightarrow> int" where
  "ymd2ord y m d = days_before_year y + days_before_month y m + d"

definition dt_micros :: "datetime \<Rightarrow> int" where
  \<comment> \<open>the position of the wall-clock fields on the time line, in microseconds\<close>
  "dt_micros dt =
     (((ymd2ord (dt_year dt) (dt_month dt) (dt_day dt) * 24 + dt_hour dt) * 60 + dt_minute dt) * 60
        + dt_second dt) * 1000000 + dt_microsecond dt"

definition dt_sub :: "datetime \<Rightarrow> datetime \<Rightarrow> py_error + int" where
  \<comment> \<open>\<^verbatim>\<open>a - b\<close> as a number of microseconds; mixing naive and aware raises\<close>
  "dt_sub a b =
     (case (dt_tzoffset a, dt_tzoffset b) of
        (None, None) \<Rightarrow> Inr (dt_micros a - dt_micros b)
      | (Some oa, Some ob) \<Rightarrow> Inr ((dt_micros a - oa) - (dt_micros b - ob))
      | _ \<Rightarrow> Inl TypeError)"

definition dt_gt :: "datetime \<Rightarrow> datetime \<Rightarrow> py_error + bool" where
  \<comment> \<open>\<^verbatim>\<open>a > b\<close>\<close>
  "dt_gt a b = (case dt_sub a b of Inl e \<Rightarrow> Inl e | Inr d \<Rightarrow> Inr (0 < d))"

definition total_seconds :: "int \<Rightarrow> real" where
  "total_seconds us = of_int us / 1000000"

definition date_isoformat :: "datetime \<Rightarrow> string" where
  \<comment> \<open>\<^verbatim>\<open>dt.date().isoformat()\<close>\<close>
  "date_isoformat dt =
     fmt_0d 4 (dt_year dt) @ ''-'' @ fmt_0d 2 (dt_month dt) @ ''-'' @ fmt_0d 2 (dt_day dt)"

subsection \<open>Parsing timestamps\<close>

text \<open>
  \<^verbatim>\<open>datetime.fromisoformat\<close> on the grammar every CPython since 3.7 accepts:
  \<^verbatim>\<open>YYYY-MM-DD[*HH[:MM[:SS[.fff[fff]]]][(+|-)HH:MM[:SS[.ffffff]]]]\<close>, \<^verbatim>\<open>*\<close> any one
  character. \<open>None\<close> stands for the \<^verbatim>\<open>ValueError\<close> the callers catch.
\<close>

definition is_digit :: "char \<Rightarrow> bool" where
  "is_digit c = (CHR ''0'' \<le> c \<and> c \<le> CHR ''9'')"

definition digit_val :: "char \<Rightarrow> nat" where
  "digit_val c = of_char c - 48"

definition parse_nat :: "string \<Rightarrow> nat option" where
  "parse_nat s =
     (if s \<noteq> [] \<and> list_all is_digit s
      then Some (foldl (\<lambda>a c. 10 * a + digit_val c) 0 s) else None)"

definition parse2 :: "string \<Rightarrow> (nat \<times> string) option" where
  "parse2 s =
     (if length s < 2 then None
      else map_option (\<lambda>n. (n, drop 2 s)) (parse_nat (take 2 s)))"

definition parse_fraction :: "string \<Rightarrow> nat option" where
  "parse_fraction s =
     (case s of
        [] \<Rightarrow> Some 0
      | c # r \<Rightarrow>
          if c \<noteq> CHR ''.'' then None
          else if length r = 3 then map_option (\<lambda>n. n * 1000) (parse_nat r)
          else if length r = 6 then parse_nat r
          else None)"

definition parse_hh_mm_ss_ff :: "string \<Rightarrow> (nat \<times> nat \<times> nat \<times> nat) option" where
  "parse_hh_mm_ss_ff s =
     (case parse2 s of
        None \<Rightarrow> None
      | Some (hh, r1) \<Rightarrow>
          (case r1 of
             [] \<Rightarrow> Some (hh, 0, 0, 0)
           | c1 # r1' \<Rightarrow>
               if c1 \<noteq> CHR '':'' then None
               else (case parse2 r1' of
                       None \<Rightarrow> None
                     | Some (mm, r2) \<Rightarrow>
                         (case r2 of
                            [] \<Rightarrow> Some (hh, mm, 0, 0)
                          | c2 # r2' \<Rightarrow>
                              if c2 \<noteq> CHR '':'' then None
                              else (case parse2 r2' of
                                      None \<Rightarrow> None
                                    | Some (ss, r3) \<Rightarrow>
                                        map_option (\<lambda>ff. (hh, mm, ss, ff)) (parse_fraction r3))))))"

definition find_tz :: "string \<Rightarrow> nat option" where
  \<comment> \<open>the index of the first \<^verbatim>\<open>-\<close>, or else of the first \<^verbatim>\<open>+\<close>\<close>
  "find_tz s =
     (if CHR ''-'' \<in> set s then Some (length (takeWhile (\<lambda>c. c \<noteq> CHR ''-'') s))
      else if CHR ''+'' \<in> set s then Some (length (takeWhile (\<lambda>c. c \<noteq> CHR ''+'') s))
      else None)"

definition parse_tz :: "char \<Rightarrow> string \<Rightarrow> int option" where
  "parse_tz sign s =
     (if length s \<notin> {5, 8, 15} then None
      else (case parse_hh_mm_ss_ff s of
              None \<Rightarrow> None
            | Some (h, m, sec, ff) \<Rightarrow>
                Some ((if sign = CHR ''-'' then - 1 else 1)
                        * (((int h * 60 + int m) * 60 + int sec) * 1000000 + int ff))))"

definition parse_isoformat_time :: "string \<Rightarrow> ((nat \<times> nat \<times> nat \<times> nat) \<times> int option) option" where
  "parse_isoformat_time tstr =
     (if length tstr < 2 then None
      else (case find_tz tstr of
              None \<Rightarrow> map_option (\<lambda>t. (t, None)) (parse_hh_mm_ss_ff tstr)
            | Some p \<Rightarrow>
                (case (parse_hh_mm_ss_ff (take p tstr), parse_tz (tstr ! p) (drop (p + 1) tstr)) of
                   (Some t, Some off) \<Rightarrow> Some (t, Some off)
                 | _ \<Rightarrow> None)))"

definition parse_isoformat_date :: "string \<Rightarrow> (nat \<times> nat \<times> nat) option" where
  "parse_isoformat_date d =
     (if length d \<noteq> 10 \<or> d ! 4 \<noteq> CHR ''-'' \<or> d ! 7 \<noteq> CHR ''-'' then None
      else (case (parse_nat (take 4 d), parse_nat (take 2 (drop 5 d)), parse_nat (drop 8 d)) of
              (Some y, Some m, Some dd) \<Rightarrow> Some (y, m, dd)
            | _ \<Rightarrow> None))"

definition mk_datetime ::
  "nat \<times> nat \<times> nat \<Rightarrow> (nat \<times> nat \<times> nat \<times> nat) \<times> int option \<Rightarrow> datetime option" where
  \<comment> \<open>the range checks of the \<^verbatim>\<open>datetime\<close> and \<^verbatim>\<open>timezone\<close> constructors\<close>
  "mk_datetime ymd tm =
     (case (ymd, tm) of
        ((y, m, d), ((hh, mm, ss, ff), tz)) \<Rightarrow>
          if 1 \<le> y \<and> y \<le> 9999 \<and> 1 \<le> m \<and> m \<le> 12 \<and> 1 \<le> d
             \<and> int d \<le> days_in_month (int y) (int m)
             \<and> hh \<le> 23 \<and> mm \<le> 59 \<and> ss \<le> 59 \<and> ff \<le> 999999
             \<and> (case tz of None \<Rightarrow> True | Some off \<Rightarrow> \<bar>off\<bar> < 86400000000)
          then Some \<lparr>dt_year = int y, dt_month = int m, dt_day = int d, dt_hour = int hh,
                     dt_minute = int mm, dt_second = int ss, dt_microsecond = int ff,
                     dt_tzoffset = tz\<rparr>
          else None)"

definition fromisoformat :: "string \<Rightarrow> datetime option" where
  "fromisoformat s =
     (case parse_isoformat_date (take 10 s) of
        None \<Rightarrow> None
      | Some ymd \<Rightarrow>
          (if drop 11 s = [] then mk_datetime ymd ((0, 0, 0, 0), None)
           else (case parse_isoformat_time (drop 11 s) of
                   None \<Rightarrow> None
                 | Some tm \<Rightarrow> mk_datetime ymd tm)))"

text \<open>
  \<^verbatim>\<open>datetime.strptime(ts, "%Y-%m-%d" + sep + "%H:%M:%S")\<close>, the fallback of both callers,
  on zero-padded fields (the leniency of \<^verbatim>\<open>strptime\<close> on unpadded fields and runs of
  white space is not modelled). It is reached only when \<open>fromisoformat\<close> has failed.
\<close>

definition strptime_ymd_hms :: "char \<Rightarrow> string \<Rightarrow> datetime option" where
  "strptime_ymd_hms sep s =
     (if length s \<noteq> 19 \<or> s ! 10 \<noteq> sep then None
      else (case (parse_isoformat_date (take 10 s), parse_hh_mm_ss_ff (drop 11 s)) of
              (Some ymd, Some t) \<Rightarrow> mk_datetime ymd (t, None)
            | _ \<Rightarrow> None))"

section \<open>The database\<close>

text \<open>
  The tables of \<^verbatim>\<open>Database._ensure_schema\<close> that the payroll pipeline reads or
  writes, each a list of rows in rowid order, with the columns the pipeline uses.
  The table \<^verbatim>\<open>payroll_runs\<close> declares no uniqueness constraint on
  \<^verbatim>\<open>(employee_id, year, month)\<close>: its only key is the autoincremented \<^verbatim>\<open>id\<close>.
\<close>

record employee =
  emp_id :: int
  emp_full_name :: string
  emp_rate :: real
  emp_active :: int

record attendance =
  att_employee_id :: int
  att_event :: string
  att_timestamp :: string

record adjustment =
  adj_employee_id :: int
  adj_year :: int
  adj_month :: int
  adj_amount :: real

record payroll_run =
  run_id :: int
  run_employee_id :: int
  run_year :: int
  run_month :: int
  run_regular_hours :: real
  run_overtime_hours :: real
  run_hourly_rate :: real
  run_gross_pay :: real
  run_total_adjustments :: real
  run_net_pay :: real

record database =
  employees :: "employee list"
  attendance_rows :: "attendance list"
  adjustments :: "adjustment list"
  payroll_runs :: "payroll_run list"

definition fetch_active_employee :: "database \<Rightarrow> int \<Rightarrow> employee option" where
  \<comment> \<open>\<^verbatim>\<open>fetchone("SELECT ... FROM employees WHERE id = ? AND active = 1")\<close>\<close>
  "fetch_active_employee db employee_id =
     find (\<lambda>e. emp_id e = employee_id \<and> emp_active e = 1) (employees db)"

definition query_active_employees :: "database \<Rightarrow> employee list" where
  \<comment> \<open>\<^verbatim>\<open>query("SELECT ... FROM employees WHERE active = 1")\<close>\<close>
  "query_active_employees db = filter (\<lambda>e. emp_active e = 1) (employees db)"

definition query_attendance :: "database \<Rightarrow> int \<Rightarrow> (string \<Rightarrow> bool) \<Rightarrow> attendance list" where
  \<comment> \<open>\<^verbatim>\<open>SELECT event, timestamp FROM attendance WHERE employee_id = ? AND <range> ORDER BY timestamp\<close>;
      rows with equal timestamps stay in rowid order\<close>
  "query_attendance db employee_id in_range =
     sort_key att_timestamp
       (filter (\<lambda>r. att_employee_id r = employee_id \<and> in_range (att_timestamp r))
          (attendance_rows db))"

definition key_matches :: "int \<Rightarrow> int \<Rightarrow> int \<Rightarrow> payroll_run \<Rightarrow> bool" where
  "key_matches employee_id year month r =
     (run_employee_id r = employee_id \<and> run_year r = year \<and> run_month r = month)"

definition fetch_payroll_run :: "database \<Rightarrow> int \<Rightarrow> int \<Rightarrow> int \<Rightarrow> payroll_run option" where
  \<comment> \<open>\<^verbatim>\<open>fetchone("SELECT id FROM payroll_runs WHERE employee_id = ? AND year = ? AND month = ?")\<close>\<close>
  "fetch_payroll_run db employee_id year month =
     find (key_matches employee_id year month) (payroll_runs db)"

definition next_run_id :: "payroll_run list \<Rightarrow> int" where
  \<comment> \<open>the autoincremented key: one more than the largest id in use\<close>
  "next_run_id rs = fold max (map run_id rs) 0 + 1"

section \<open>The payroll service\<close>

record payroll_service =
  tax_rate :: real
    \<comment> \<open>\<^verbatim>\<open>tax_policy.rate\<close>, by default the double that \<^verbatim>\<open>0.15\<close> denotes\<close>
  overtime_multiplier :: real
    \<comment> \<open>1.5 by default\<close>
  attendance_model :: "(int \<Rightarrow> int \<Rightarrow> int \<Rightarrow> (string option \<times> real option) list) option"
    \<comment> \<open>\<^verbatim>\<open>attendance_model.list_for_employee\<close>, whose class is not part of these sources:
        the items it returns, each with its \<^verbatim>\<open>date\<close> and \<^verbatim>\<open>hours\<close>; \<open>None\<close> when the
        service has no such model\<close>

definition default_service :: payroll_service where
  \<comment> \<open>\<^verbatim>\<open>PayrollService(db)\<close> when no attendance model can be built\<close>
  "default_service =
     \<lparr>tax_rate = fl (15 / 100), overtime_multiplier = 3 / 2, attendance_model = None\<rparr>"

record payroll_result =
  pr_employee_id :: int
  pr_full_name :: string
  pr_period :: string
  pr_hourly_rate :: real
  pr_regular_hours :: real
  pr_overtime_hours :: real
  pr_gross :: real
  pr_adjustments :: real
  pr_tax :: real
  pr_net :: real

definition get_employee_rate :: "database \<Rightarrow> int \<Rightarrow> py_error + real" where
  "get_employee_rate db employee_id =
     (case fetch_active_employee db employee_id of
        None \<Rightarrow> Inl ValueError
      | Some row \<Rightarrow> Inr (emp_rate row))"

definition sum_adjustments :: "database \<Rightarrow> int \<Rightarrow> int \<Rightarrow> int \<Rightarrow> real" where
  "sum_adjustments db employee_id year month =
     sum_list (map adj_amount
       (filter (\<lambda>a. adj_employee_id a = employee_id \<and> adj_year a = year \<and> adj_month a = month)
          (adjustments db)))"

subsection \<open>\<^verbatim>\<open>day_hours\<close>: a \<^verbatim>\<open>defaultdict(float)\<close>\<close>

type_synonym day_hours = "(string \<times> real) list"

fun dict_add :: "day_hours \<Rightarrow> string \<Rightarrow> real \<Rightarrow> day_hours" where
  \<comment> \<open>\<^verbatim>\<open>day_hours[k] += v\<close>: a missing key starts at \<open>0.0\<close> and goes last\<close>
  "dict_add [] k v = [(k, 0 + v)]"
| "dict_add ((k', v') # kvs) k v =
     (if k' = k then (k', v' + v) # kvs else (k', v') # dict_add kvs k v)"

definition dict_values :: "day_hours \<Rightarrow> real list" where
  "dict_values d = map snd d"

definition bucket :: "day_hours \<Rightarrow> string \<Rightarrow> real" where
  \<comment> \<open>the hours of a day, \<open>0\<close> for a day with no bucket\<close>
  "bucket d k = (case map_of d k of None \<Rightarrow> 0 | Some v \<Rightarrow> v)"

subsection \<open>\<^verbatim>\<open>_aggregate_hours_by_day\<close>\<close>

type_synonym parsed_events = "(string \<times> datetime) list"

fun add_model_items :: "day_hours \<Rightarrow> (string option \<times> real option) list \<Rightarrow> day_hours" where
  \<comment> \<open>the loop over the items of the attendance model\<close>
  "add_model_items dh [] = dh"
| "add_model_items dh ((d, hours) # its) =
     (case (d, hours) of
        (Some k, Some h) \<Rightarrow> if k \<noteq> [] then add_model_items (dict_add dh k h) its
                            else add_model_items dh its
      | _ \<Rightarrow> add_model_items dh its)"

definition month_window :: "int \<Rightarrow> int \<Rightarrow> string \<times> string" where
  \<comment> \<open>\<^verbatim>\<open>start\<close> and \<^verbatim>\<open>end\<close>\<close>
  "month_window period_year period_month =
     (fmt_0d 4 period_year @ ''-'' @ fmt_0d 2 period_month @ ''-01T00:00:00'',
      if period_month = 12 then fmt_0d 4 (period_year + 1) @ ''-01-01T00:00:00''
      else fmt_0d 4 period_year @ ''-'' @ fmt_0d 2 (period_month + 1) @ ''-01T00:00:00'')"

definition in_month_window :: "int \<Rightarrow> int \<Rightarrow> string \<Rightarrow> bool" where
  \<comment> \<open>\<^verbatim>\<open>timestamp >= start AND timestamp < end\<close>, on text\<close>
  "in_month_window period_year period_month ts =
     (case month_window period_year period_month of
        (start, end') \<Rightarrow> start \<le> ts \<and> ts < end')"

definition parse_service :: "string \<Rightarrow> datetime option" where
  "parse_service ts =
     (case fromisoformat ts of
        Some dt \<Rightarrow> Some dt
      | None \<Rightarrow> strptime_ymd_hms CHR '' '' ts)"

definition parse_rows :: "(string \<Rightarrow> datetime option) \<Rightarrow> attendance list \<Rightarrow> parsed_events" where
  \<comment> \<open>the loop that fills \<^verbatim>\<open>parsed\<close>: a row whose timestamp does not parse is left out\<close>
  "parse_rows parse rows =
     List.map_filter (\<lambda>r. map_option (\<lambda>dt. (att_event r, dt)) (parse (att_timestamp r))) rows"

function find_sign_out :: "parsed_events \<Rightarrow> nat \<Rightarrow> nat" where
  \<comment> \<open>\<^verbatim>\<open>while j < len(parsed) and parsed[j][0] != "sign_out": j += 1\<close>\<close>
  "find_sign_out parsed j =
     (if j < length parsed \<and> fst (parsed ! j) \<noteq> ''sign_out''
      then find_sign_out parsed (j + 1) else j)"
  by pat_completeness auto
termination
  by (relation "measure (\<lambda>(parsed, j). length parsed - j)") auto

declare find_sign_out.simps [simp del]

definition pair_step :: "parsed_events \<Rightarrow> nat \<Rightarrow> day_hours \<Rightarrow> py_error + (nat \<times> day_hours)" where
  \<comment> \<open>one turn of the pairing loop at cursor \<open>i < length parsed\<close>: the next cursor and
      the updated buckets\<close>
  "pair_step parsed i dh =
     (case parsed ! i of
        (ev, dt) \<Rightarrow>
          if ev = ''sign_in'' then
            (let j = find_sign_out parsed (i + 1) in
             if j < length parsed \<and> fst (parsed ! j) = ''sign_out'' then
               (let dt_out = snd (parsed ! j) in
                case dt_gt dt_out dt of
                  Inl e \<Rightarrow> Inl e
                | Inr later \<Rightarrow>
                    if later then
                      (case dt_sub dt_out dt of
                         Inl e \<Rightarrow> Inl e
                       | Inr us \<Rightarrow>
                           Inr (j + 1, dict_add dh (date_isoformat dt) (total_seconds us / 3600)))
                    else Inr (j + 1, dh))
             else Inr (i + 1, dh))
          else Inr (i + 1, dh))"

lemma find_sign_out_ge: "j \<le> find_sign_out parsed j"
proof (induction parsed j rule: find_sign_out.induct)
  case (1 parsed j)
  show ?case
  proof (cases "j < length parsed \<and> fst (parsed ! j) \<noteq> ''sign_out''")
    case True
    then have "find_sign_out parsed j = find_sign_out parsed (j + 1)"
      by (subst find_sign_out.simps) simp
    moreover have "j + 1 \<le> find_sign_out parsed (j + 1)"
      using 1 True by simp
    ultimately show ?thesis by simp
  next
    case False
    then have "find_sign_out parsed j = j"
      by (subst find_sign_out.simps) auto
    then show ?thesis by simp
  qed
qed

lemma pair_step_advances:
  assumes "pair_step parsed i dh = Inr (i', dh')"
  shows "i < i'"
proof -
  have "i + 1 \<le> find_sign_out parsed (i + 1)"
    by (rule find_sign_out_ge)
  with assms show ?thesis
    by (auto simp: pair_step_def Let_def split: prod.splits if_splits sum.splits)
qed

function pair_loop :: "parsed_events \<Rightarrow> nat \<Rightarrow> day_hours \<Rightarrow> py_error + day_hours" where
  \<comment> \<open>\<^verbatim>\<open>while i < len(parsed): ...\<close>\<close>
  "pair_loop parsed i dh =
     (if i < length parsed
      then (case pair_step parsed i dh of
              Inl e \<Rightarrow> Inl e
            | Inr (i', dh') \<Rightarrow> pair_loop parsed i' dh')
      else Inr dh)"
  by pat_completeness auto
termination
proof (relation "measure (\<lambda>(parsed, i, dh). length parsed - i)")
  show "wf (measure (\<lambda>(parsed, i, dh). length parsed - i))"
    by simp
next
  fix parsed :: parsed_events and i :: nat and dh :: day_hours and x i' dh'
  assume "i < length parsed" and "pair_step parsed i dh = Inr x" and "(i', dh') = x"
  then have "i < i'"
    using pair_step_advances [of parsed i dh i' dh'] by simp
  with \<open>i < length parsed\<close>
  show "((parsed, i', dh'), (parsed, i, dh)) \<in> measure (\<lambda>(parsed, i, dh). length parsed - i)"
    by simp
qed

declare pair_loop.simps [simp del]

definition aggregate_hours_by_day ::
  "payroll_service \<Rightarrow> database \<Rightarrow> int \<Rightarrow> int \<Rightarrow> int \<Rightarrow> py_error + day_hours" where
  "aggregate_hours_by_day svc db employee_id period_year period_month =
     (let day_hours =
            (case attendance_model svc of
               None \<Rightarrow> []
             | Some list_for_employee \<Rightarrow>
                 add_model_items [] (list_for_employee employee_id period_year period_month));
          rows = query_attendance db employee_id (in_month_window period_year period_month);
          parsed = parse_rows parse_service rows
      in pair_loop parsed 0 day_hours)"

subsection \<open>\<^verbatim>\<open>compute_for_employee\<close>\<close>

definition regular_hours_of :: "day_hours \<Rightarrow> real" where
  \<comment> \<open>\<^verbatim>\<open>sum(min(8.0, h) for h in day_hours.values())\<close>\<close>
  "regular_hours_of day_hours = sum_list (map (\<lambda>h. min 8 h) (dict_values day_hours))"

definition overtime_hours_of :: "day_hours \<Rightarrow> real" where
  \<comment> \<open>\<^verbatim>\<open>sum(max(0.0, h - 8.0) for h in day_hours.values())\<close>\<close>
  "overtime_hours_of day_hours = sum_list (map (\<lambda>h. max 0 (h - 8)) (dict_values day_hours))"

definition period_of :: "int \<Rightarrow> int \<Rightarrow> string" where
  "period_of year month = fmt_0d 4 year @ ''-'' @ fmt_0d 2 month"

definition payroll_of ::
  "payroll_service \<Rightarrow> int \<Rightarrow> string \<Rightarrow> int \<Rightarrow> int \<Rightarrow> real \<Rightarrow> day_hours \<Rightarrow> real \<Rightarrow> payroll_result" where
  \<comment> \<open>the arithmetic of \<^verbatim>\<open>compute_for_employee\<close>, from \<^verbatim>\<open>regular_hours = ...\<close> to the
      returned dict; \<open>adjustments_sum\<close> is what \<^verbatim>\<open>_sum_adjustments\<close> returned\<close>
  "payroll_of svc employee_id full_name year month hourly_rate day_hours adjustments_sum =
     (let regular_hours = regular_hours_of day_hours;
          overtime_hours = overtime_hours_of day_hours;
          gross = py_round2 (fl (fl (regular_hours * hourly_rate)
                    + fl (fl (overtime_hours * hourly_rate) * overtime_multiplier svc)));
          adjustments = py_round2 adjustments_sum;
          net_before_tax = fl (gross + adjustments);
          tax = py_round2 (fl (net_before_tax * tax_rate svc));
          net = py_round2 (fl (net_before_tax - tax))
      in \<lparr>pr_employee_id = employee_id,
          pr_full_name = full_name,
          pr_period = period_of year month,
          pr_hourly_rate = py_round2 hourly_rate,
          pr_regular_hours = py_round2 regular_hours,
          pr_overtime_hours = py_round2 overtime_hours,
          pr_gross = gross,
          pr_adjustments = adjustments,
          pr_tax = tax,
          pr_net = net\<rparr>)"

definition compute_for_employee ::
  "payroll_service \<Rightarrow> database \<Rightarrow> int \<Rightarrow> int \<Rightarrow> int \<Rightarrow> real option \<Rightarrow> py_error + payroll_result" where
  "compute_for_employee svc db employee_id year month hourly_rate =
     (case (case hourly_rate of
              None \<Rightarrow> get_employee_rate db employee_id
            | Some r \<Rightarrow> Inr r) of
        Inl e \<Rightarrow> Inl e
      | Inr rate \<Rightarrow>
          (case fetch_active_employee db employee_id of
             None \<Rightarrow> Inl ValueError
           | Some emp_row \<Rightarrow>
               (case aggregate_hours_by_day svc db employee_id year month of
                  Inl e \<Rightarrow> Inl e
                | Inr day_hours \<Rightarrow>
                    Inr (payroll_of svc employee_id (emp_full_name emp_row) year month rate
                           day_hours (sum_adjustments db employee_id year month)))))"

subsection \<open>\<^verbatim>\<open>persist_for_employee\<close> and \<^verbatim>\<open>generate_payroll_for_month\<close>\<close>

definition update_run :: "int \<Rightarrow> payroll_result \<Rightarrow> payroll_run list \<Rightarrow> payroll_run list" where
  \<comment> \<open>\<^verbatim>\<open>UPDATE payroll_runs SET ... WHERE id = ?\<close>\<close>
  "update_run rid pr rs =
     map (\<lambda>r. if run_id r = rid
               then r\<lparr>run_regular_hours := pr_regular_hours pr,
                      run_overtime_hours := pr_overtime_hours pr,
                      run_hourly_rate := pr_hourly_rate pr,
                      run_gross_pay := pr_gross pr,
                      run_total_adjustments := pr_adjustments pr,
                      run_net_pay := pr_net pr\<rparr>
               else r) rs"

definition insert_run :: "int \<Rightarrow> int \<Rightarrow> int \<Rightarrow> payroll_result \<Rightarrow> payroll_run list \<Rightarrow> payroll_run list" where
  \<comment> \<open>\<^verbatim>\<open>INSERT INTO payroll_runs (...) VALUES (...)\<close>\<close>
  "insert_run employee_id year month pr rs =
     rs @ [\<lparr>run_id = next_run_id rs,
             run_employee_id = employee_id,
             run_year = year,
             run_month = month,
             run_regular_hours = pr_regular_hours pr,
             run_overtime_hours = pr_overtime_hours pr,
             run_hourly_rate = pr_hourly_rate pr,
             run_gross_pay = pr_gross pr,
             run_total_adjustments = pr_adjustments pr,
             run_net_pay = pr_net pr\<rparr>]"

definition persist_for_employee ::
  "payroll_service \<Rightarrow> database \<Rightarrow> int \<Rightarrow> int \<Rightarrow> int \<Rightarrow> real option
     \<Rightarrow> (py_error + payroll_result) \<times> database" where
  \<comment> \<open>what the call raises or returns, and the database after it\<close>
  "persist_for_employee svc db employee_id year month hourly_rate =
     (case compute_for_employee svc db employee_id year month hourly_rate of
        Inl e \<Rightarrow> (Inl e, db)
      | Inr pr \<Rightarrow>
          (case fetch_payroll_run db employee_id year month of
             Some exists \<Rightarrow>
               (Inr pr, db\<lparr>payroll_runs := update_run (run_id exists) pr (payroll_runs db)\<rparr>)
           | None \<Rightarrow>
               (Inr pr, db\<lparr>payroll_runs := insert_run employee_id year month pr (payroll_runs db)\<rparr>)))"

record batch =
  batch_db :: database
  batch_results :: "payroll_result list"
  batch_log :: "(int \<times> py_error) list"
    \<comment> \<open>the printed lines: the employee and the error caught\<close>

fun generate_loop :: "payroll_service \<Rightarrow> int \<Rightarrow> int \<Rightarrow> employee list \<Rightarrow> batch \<Rightarrow> batch" where
  \<comment> \<open>\<^verbatim>\<open>for emp in rows: try: ... except Exception as e: print(...)\<close>\<close>
  "generate_loop svc year month [] b = b"
| "generate_loop svc year month (emp # rows) b =
     (case compute_for_employee svc (batch_db b) (emp_id emp) year month (Some (emp_rate emp)) of
        Inl e \<Rightarrow>
          generate_loop svc year month rows (b\<lparr>batch_log := batch_log b @ [(emp_id emp, e)]\<rparr>)
      | Inr pr \<Rightarrow>
          generate_loop svc year month rows
            (b\<lparr>batch_db := (batch_db b)\<lparr>payroll_runs :=
                    insert_run (emp_id emp) year month pr (payroll_runs (batch_db b))\<rparr>,
               batch_results := batch_results b @ [pr]\<rparr>))"

definition generate_payroll_for_month :: "payroll_service \<Rightarrow> database \<Rightarrow> int \<Rightarrow> int \<Rightarrow> batch" where
  "generate_payroll_for_month svc db year month =
     generate_loop svc year month (query_active_employees db)
       \<lparr>batch_db = db, batch_results = [], batch_log = []\<rparr>"

section \<open>The attendance controller: \<^verbatim>\<open>compute_hours_for_day\<close>\<close>

record day_summary =
  ds_date :: string
  ds_regular_hours :: real
  ds_overtime_hours :: real
  ds_total_hours :: real

definition in_day_window :: "string \<Rightarrow> string \<Rightarrow> bool" where
  \<comment> \<open>\<^verbatim>\<open>timestamp BETWEEN start AND end\<close>, both ends included, on text\<close>
  "in_day_window date_str ts =
     (date_str @ ''T00:00:00'' \<le> ts \<and> ts \<le> date_str @ ''T23:59:59'')"

definition parse_controller :: "string \<Rightarrow> datetime option" where
  "parse_controller ts =
     (case fromisoformat ts of
        Some dt \<Rightarrow> Some dt
      | None \<Rightarrow> strptime_ymd_hms CHR ''T'' ts)"

definition seconds_step :: "parsed_events \<Rightarrow> nat \<Rightarrow> real \<Rightarrow> py_error + (nat \<times> real)" where
  \<comment> \<open>one turn of the controller's pairing loop at cursor \<open>i < length parsed\<close>\<close>
  "seconds_step parsed i secs =
     (if fst (parsed ! i) = ''sign_in'' then
        (let j = find_sign_out parsed (i + 1) in
         if j < length parsed then
           (case dt_sub (snd (parsed ! j)) (snd (parsed ! i)) of
              Inl e \<Rightarrow> Inl e
            | Inr delta \<Rightarrow> Inr (j + 1, fl (secs + max 0 (fl (total_seconds delta)))))
         else Inr (i + 1, secs))
      else Inr (i + 1, secs))"

lemma seconds_step_advances:
  assumes "seconds_step parsed i secs = Inr (i', secs')"
  shows "i < i'"
proof -
  have "i + 1 \<le> find_sign_out parsed (i + 1)"
    by (rule find_sign_out_ge)
  with assms show ?thesis
    by (auto simp: seconds_step_def Let_def split: if_splits sum.splits)
qed

function seconds_loop :: "parsed_events \<Rightarrow> nat \<Rightarrow> real \<Rightarrow> py_error + real" where
  "seconds_loop parsed i secs =
     (if i < length parsed
      then (case seconds_step parsed i secs of
              Inl e \<Rightarrow> Inl e
            | Inr (i', secs') \<Rightarrow> seconds_loop parsed i' secs')
      else Inr secs)"
  by pat_completeness auto
termination
proof (relation "measure (\<lambda>(parsed, i, secs). length parsed - i)")
  show "wf (measure (\<lambda>(parsed, i, secs). length parsed - i))"
    by simp
next
  fix parsed :: parsed_events and i :: nat and secs :: real and x i' secs'
  assume "i < length parsed" and "seconds_step parsed i secs = Inr x" and "(i', secs') = x"
  then have "i < i'"
    using seconds_step_advances [of parsed i secs i' secs'] by simp
  with \<open>i < length parsed\<close>
  show "((parsed, i', secs'), (parsed, i, secs))
          \<in> measure (\<lambda>(parsed, i, secs). length parsed - i)"
    by simp
qed

declare seconds_loop.simps [simp del]

definition compute_hours_for_day :: "database \<Rightarrow> int \<Rightarrow> string \<Rightarrow> py_error + day_summary" where
  "compute_hours_for_day db employee_id date_str =
     (let rows = query_attendance db employee_id (in_day_window date_str);
          parsed = parse_rows parse_controller rows
      in case seconds_loop parsed 0 0 of
           Inl e \<Rightarrow> Inl e
         | Inr secs \<Rightarrow>
             (let hours = py_round2 (fl (secs / 3600))
              in Inr \<lparr>ds_date = date_str,
                      ds_regular_hours = py_round2 (min 8 hours),
                      ds_overtime_hours = py_round2 (max 0 (fl (hours - 8))),
                      ds_total_hours = hours\<rparr>))"

section \<open>Evaluation on concrete inputs\<close>

lemmas parse_defs = fromisoformat_def parse_isoformat_date_def parse_isoformat_time_def parse_hh_mm_ss_ff_def
  parse2_def parse_nat_def parse_fraction_def find_tz_def parse_tz_def mk_datetime_def is_digit_def digit_val_def
  days_in_month_def is_leap_def strptime_ymd_hms_def parse_service_def parse_controller_def

lemmas fmt_defs = fmt_0d_def digits.simps digit_char_def

lemmas fl_defs = py_round2_def fl_def ulp_def ulp_up.simps ulp_down.simps rne_def

lemmas time_defs = dt_sub_def dt_gt_def dt_micros_def ymd2ord_def days_before_year_def days_before_month_def
  days_in_month_def is_leap_def total_seconds_def date_isoformat_def

definition scenario_db :: database where
  "scenario_db =
     \<lparr>employees = [\<lparr>emp_id = 1, emp_full_name = ''Ann'', emp_rate = 10, emp_active = 1\<rparr>],
      attendance_rows =
        [\<lparr>att_employee_id = 1, att_event = ''sign_in'', att_timestamp = ''2024-01-05T08:00:00''\<rparr>,
         \<lparr>att_employee_id = 1, att_event = ''sign_out'', att_timestamp = ''2024-01-05T19:00:00''\<rparr>],
      adjustments = [\<lparr>adj_employee_id = 1, adj_year = 2024, adj_month = 1, adj_amount = - 50\<rparr>],
      payroll_runs = []\<rparr>"

lemma month_window_2024_01:
  "month_window 2024 1 = (''2024-01-01T00:00:00'', ''2024-02-01T00:00:00'')"
  by (simp add: month_window_def fmt_defs)

lemma scenario_rows:
  "query_attendance scenario_db 1 (in_month_window 2024 1) = attendance_rows scenario_db"
  by (simp add: query_attendance_def in_month_window_def month_window_2024_01 scenario_db_def)

lemma scenario_parsed:
  "parse_rows parse_service (attendance_rows scenario_db) =
     [(''sign_in'', \<lparr>dt_year = 2024, dt_month = 1, dt_day = 5, dt_hour = 8, dt_minute = 0,
         dt_second = 0, dt_microsecond = 0, dt_tzoffset = None\<rparr>),
      (''sign_out'', \<lparr>dt_year = 2024, dt_month = 1, dt_day = 5, dt_hour = 19, dt_minute = 0,
         dt_second = 0, dt_microsecond = 0, dt_tzoffset = None\<rparr>)]"
  by (simp add: parse_rows_def List.map_filter_def scenario_db_def parse_defs)

lemma scenario_day_hours:
  "aggregate_hours_by_day default_service scenario_db 1 2024 1 = Inr [(''2024-01-05'', 11)]"
  by (simp add: aggregate_hours_by_day_def default_service_def scenario_rows scenario_parsed
      pair_loop.simps pair_step_def find_sign_out.simps time_defs fmt_defs Let_def)

lemma default_service_values:
  "overtime_multiplier default_service = 3 / 2"
  "tax_rate default_service = 5404319552844595 / 36028797018963968"
  by (simp_all add: default_service_def fl_defs Let_def)

lemma payroll_of_trace:
  assumes "regular_hours_of dh = reg" and "overtime_hours_of dh = ot"
    and "fl (reg * rate) = a" and "fl (ot * rate) = b"
    and "fl (b * overtime_multiplier svc) = c" and "fl (a + c) = d"
    and "py_round2 d = gross"
    and "py_round2 adj = adjs"
    and "fl (gross + adjs) = net_before_tax"
    and "fl (net_before_tax * tax_rate svc) = t" and "py_round2 t = tax"
    and "fl (net_before_tax - tax) = n" and "py_round2 n = net"
    and "py_round2 rate = rate2" and "py_round2 reg = reg2" and "py_round2 ot = ot2"
  shows "payroll_of svc e name y m rate dh adj =
     \<lparr>pr_employee_id = e, pr_full_name = name, pr_period = period_of y m,
      pr_hourly_rate = rate2, pr_regular_hours = reg2, pr_overtime_hours = ot2,
      pr_gross = gross, pr_adjustments = adjs, pr_tax = tax, pr_net = net\<rparr>"
  by (simp add: payroll_of_def Let_def assms)

lemma period_2024_01: "period_of 2024 1 = ''2024-01''"
  by (simp add: period_of_def fmt_defs)

lemma scenario_payroll:
  "payroll_of default_service 1 ''Ann'' 2024 1 10 [(''2024-01-05'', 11)] (- 50) =
     \<lparr>pr_employee_id = 1, pr_full_name = ''Ann'', pr_period = ''2024-01'', pr_hourly_rate = 10,
      pr_regular_hours = 8, pr_overtime_hours = 3, pr_gross = 125, pr_adjustments = - 50,
      pr_tax = 1125 / 100, pr_net = 6375 / 100\<rparr>"
proof -
  have h: "regular_hours_of [(''2024-01-05'', 11)] = 8"
    "overtime_hours_of [(''2024-01-05'', 11)] = 3"
    by (simp_all add: regular_hours_of_def overtime_hours_of_def dict_values_def)
  have s1: "fl (8 * 10) = 80"
    by (simp add: fl_defs Let_def)
  have s2: "fl (3 * 10) = 30"
    by (simp add: fl_defs Let_def)
  have s3: "fl (30 * (3 / 2)) = 45"
    by (simp add: fl_defs Let_def)
  have s4: "fl (80 + 45) = 125"
    by (simp add: fl_defs Let_def)
  have s5: "py_round2 125 = 125"
    by (simp add: fl_defs Let_def)
  have s6: "py_round2 (- 50) = - 50"
    by (simp add: fl_defs Let_def)
  have s7: "fl (125 + (- 50)) = 75"
    by (simp add: fl_defs Let_def)
  have s8: "fl (75 * (5404319552844595 / 36028797018963968)) = 45 / 4"
    by (simp add: fl_defs Let_def)
  have s9: "py_round2 (45 / 4) = 45 / 4"
    by (simp add: fl_defs Let_def)
  have s10: "fl (75 - (45 / 4)) = 255 / 4"
    by (simp add: fl_defs Let_def)
  have s11: "py_round2 (255 / 4) = 255 / 4"
    by (simp add: fl_defs Let_def)
  have s12: "py_round2 10 = 10"
    by (simp add: fl_defs Let_def)
  have s13: "py_round2 8 = 8"
    by (simp add: fl_defs Let_def)
  have s14: "py_round2 3 = 3"
    by (simp add: fl_defs Let_def)
  show ?thesis
    using payroll_of_trace [where svc = default_service, unfolded default_service_values,
        OF h s1 s2 s3 s4 s5 s6 s7 s8 s9 s10 s11 s12 s13 s14]
    by (simp add: period_2024_01)
qed

lemma scenario_compute:
  "compute_for_employee default_service scenario_db 1 2024 1 None =
     Inr \<lparr>pr_employee_id = 1, pr_full_name = ''Ann'', pr_period = ''2024-01'', pr_hourly_rate = 10,
      pr_regular_hours = 8, pr_overtime_hours = 3, pr_gross = 125, pr_adjustments = - 50,
      pr_tax = 1125 / 100, pr_net = 6375 / 100\<rparr>"
proof -
  have e: "fetch_active_employee scenario_db 1
             = Some \<lparr>emp_id = 1, emp_full_name = ''Ann'', emp_rate = 10, emp_active = 1\<rparr>"
    by (simp add: fetch_active_employee_def scenario_db_def)
  have a: "sum_adjustments scenario_db 1 2024 1 = - 50"
    by (simp add: sum_adjustments_def scenario_db_def)
  show ?thesis
    by (simp add: compute_for_employee_def get_employee_rate_def e a scenario_day_hours
        scenario_payroll)
qed









section \<open>The period aggregator\<close>




section \<open>The interval pairer\<close>

lemma find_sign_out_first:
  assumes "j0 \<le> j" and "j < length parsed" and "fst (parsed ! j) = ''sign_out''"
    and "\<forall>k. j0 \<le> k \<and> k < j \<longrightarrow> fst (parsed ! k) \<noteq> ''sign_out''"
  shows "find_sign_out parsed j0 = j"
  using assms
proof (induction parsed j0 rule: find_sign_out.induct)
  case (1 parsed j0)
  show ?case
  proof (cases "j0 = j")
    case True
    with 1 show ?thesis by (subst find_sign_out.simps) simp
  next
    case False
    with 1 have lt: "j0 < j" by simp
    with 1 have cond: "j0 < length parsed \<and> fst (parsed ! j0) \<noteq> ''sign_out''" by simp
    then have "find_sign_out parsed j0 = find_sign_out parsed (j0 + 1)"
      by (subst find_sign_out.simps) simp
    moreover have "find_sign_out parsed (j0 + 1) = j"
      using 1 cond lt by simp
    ultimately show ?thesis by simp
  qed
qed

lemma find_sign_out_stops:
  "find_sign_out parsed j0 < length parsed
     \<Longrightarrow> fst (parsed ! find_sign_out parsed j0) = ''sign_out''"
proof (induction parsed j0 rule: find_sign_out.induct)
  case (1 parsed j0)
  show ?case
  proof (cases "j0 < length parsed \<and> fst (parsed ! j0) \<noteq> ''sign_out''")
    case True
    then have "find_sign_out parsed j0 = find_sign_out parsed (j0 + 1)"
      by (subst find_sign_out.simps) simp
    with 1 True show ?thesis by simp
  next
    case False
    then have "find_sign_out parsed j0 = j0"
      by (subst find_sign_out.simps) auto
    with 1 False show ?thesis by auto
  qed
qed



definition naive :: "int \<Rightarrow> int \<Rightarrow> int \<Rightarrow> int \<Rightarrow> int \<Rightarrow> int \<Rightarrow> datetime" where
  \<comment> \<open>\<^verbatim>\<open>datetime(y, m, d, hh, mm, ss)\<close>\<close>
  "naive y m d hh mm ss =
     \<lparr>dt_year = y, dt_month = m, dt_day = d, dt_hour = hh, dt_minute = mm, dt_second = ss,
      dt_microsecond = 0, dt_tzoffset = None\<rparr>"







subsection \<open>A sign-in that finds no later sign-out\<close>

definition skewed :: parsed_events where
  "skewed =
     [(''sign_in'', naive 2024 1 5 10 0 0),
      (''sign_in'', naive 2024 1 5 8 0 0),
      (''sign_out'', naive 2024 1 5 9 0 0)]"

definition skewed_db :: database where
  \<comment> \<open>a sign-in entered with a blank between date and time sorts before the rows written
      with \<^verbatim>\<open>T\<close>, whatever its time\<close>
  "skewed_db =
     \<lparr>employees = [\<lparr>emp_id = 1, emp_full_name = ''Ann'', emp_rate = 10, emp_active = 1\<rparr>],
      attendance_rows =
        [\<lparr>att_employee_id = 1, att_event = ''sign_in'', att_timestamp = ''2024-01-05T08:00:00''\<rparr>,
         \<lparr>att_employee_id = 1, att_event = ''sign_out'', att_timestamp = ''2024-01-05T09:00:00''\<rparr>,
         \<lparr>att_employee_id = 1, att_event = ''sign_in'', att_timestamp = ''2024-01-05 10:00:00''\<rparr>],
      adjustments = [],
      payroll_runs = []\<rparr>"

lemma skewed_rows:
  "query_attendance skewed_db 1 (in_month_window 2024 1) =
     [\<lparr>att_employee_id = 1, att_event = ''sign_in'', att_timestamp = ''2024-01-05 10:00:00''\<rparr>,
      \<lparr>att_employee_id = 1, att_event = ''sign_in'', att_timestamp = ''2024-01-05T08:00:00''\<rparr>,
      \<lparr>att_employee_id = 1, att_event = ''sign_out'', att_timestamp = ''2024-01-05T09:00:00''\<rparr>]"
  by (simp add: query_attendance_def in_month_window_def month_window_2024_01 skewed_db_def)

lemma skewed_parsed:
  "parse_rows parse_service (query_attendance skewed_db 1 (in_month_window 2024 1)) = skewed"
  unfolding skewed_rows
  by (simp add: parse_rows_def List.map_filter_def parse_defs skewed_def naive_def)

lemma skewed_search: "find_sign_out skewed 1 = 2"
  by (simp add: find_sign_out.simps skewed_def)

lemma skewed_not_later: "dt_gt (snd (skewed ! 2)) (snd (skewed ! 0)) = Inr False"
  by (simp add: skewed_def naive_def time_defs)

lemma skewed_step: "pair_step skewed 0 [] = Inr (3, [])"
  by (simp add: pair_step_def find_sign_out.simps skewed_def naive_def time_defs)

lemma skewed_loop: "pair_loop skewed 0 [] = Inr []"
proof -
  have "pair_loop skewed 0 [] = pair_loop skewed 3 []"
    by (subst pair_loop.simps) (simp add: skewed_step, simp add: skewed_def)
  also have "\<dots> = Inr []"
    by (subst pair_loop.simps) (simp add: skewed_def)
  finally show ?thesis .
qed

lemma skewed_loop_from_1: "pair_loop skewed 1 [] = Inr [(''2024-01-05'', 1)]"
  by (simp add: pair_loop.simps pair_step_def find_sign_out.simps skewed_def naive_def
      time_defs fmt_defs)

text \<open>
  Claim C3, as stated, fails: with a sign-in at 10:00 followed (in the order of the
  query) by a sign-in at 08:00 and a sign-out at 09:00, the search from the first
  sign-in finds the sign-out, which is not later; the cursor then goes from 0 to 3, not
  to 1, and the second sign-in is never paired (the month has no hours), although the
  scan resumed at cursor 1 would pair it for one hour.
\<close>

theorem rejected_sign_out_counterexample:
  "parse_rows parse_service (query_attendance skewed_db 1 (in_month_window 2024 1)) = skewed
   \<and> find_sign_out skewed 1 = 2
   \<and> dt_gt (snd (skewed ! 2)) (snd (skewed ! 0)) = Inr False
   \<and> pair_step skewed 0 [] = Inr (3, [])
   \<and> pair_step skewed 0 [] \<noteq> Inr (1, [])
   \<and> pair_loop skewed 0 [] = Inr []
   \<and> pair_loop skewed 1 [] = Inr [(''2024-01-05'', 1)]
   \<and> aggregate_hours_by_day default_service skewed_db 1 2024 1 = Inr []"
  using skewed_search skewed_loop_from_1
  by (simp add: skewed_parsed skewed_not_later skewed_step skewed_loop
      aggregate_hours_by_day_def default_service_def)

text \<open>
  Claim C3, amended. A sign-in at the cursor with no sign-out after it contributes
  nothing and the cursor advances by one. A sign-in whose next sign-out is not strictly
  later contributes nothing and the cursor advances past that sign-out, so the events
  between the two are skipped.
\<close>

theorem unmatched_sign_in_cursor:
  assumes "i < length parsed" and "fst (parsed ! i) = ''sign_in''"
  shows "((\<forall>k. i < k \<and> k < length parsed \<longrightarrow> fst (parsed ! k) \<noteq> ''sign_out'')
            \<longrightarrow> pair_step parsed i dh = Inr (i + 1, dh))
       \<and> (i < j \<and> j < length parsed \<and> fst (parsed ! j) = ''sign_out''
            \<and> (\<forall>k. i < k \<and> k < j \<longrightarrow> fst (parsed ! k) \<noteq> ''sign_out'')
            \<and> dt_gt (snd (parsed ! j)) (snd (parsed ! i)) = Inr False
            \<longrightarrow> pair_step parsed i dh = Inr (j + 1, dh))"
proof (intro conjI impI)
  assume none: "\<forall>k. i < k \<and> k < length parsed \<longrightarrow> fst (parsed ! k) \<noteq> ''sign_out''"
  have "\<not> find_sign_out parsed (Suc i) < length parsed"
  proof
    assume lt: "find_sign_out parsed (Suc i) < length parsed"
    then have "fst (parsed ! find_sign_out parsed (Suc i)) = ''sign_out''"
      by (rule find_sign_out_stops)
    moreover have "Suc i \<le> find_sign_out parsed (Suc i)"
      by (rule find_sign_out_ge)
    ultimately show False using none lt by auto
  qed
  with assms show "pair_step parsed i dh = Inr (i + 1, dh)"
    by (simp add: pair_step_def case_prod_unfold)
next
  assume h: "i < j \<and> j < length parsed \<and> fst (parsed ! j) = ''sign_out''
      \<and> (\<forall>k. i < k \<and> k < j \<longrightarrow> fst (parsed ! k) \<noteq> ''sign_out'')
      \<and> dt_gt (snd (parsed ! j)) (snd (parsed ! i)) = Inr False"
  then have "find_sign_out parsed (i + 1) = j"
    by (intro find_sign_out_first) auto
  then have j: "find_sign_out parsed (Suc i) = j"
    by simp
  from assms h show "pair_step parsed i dh = Inr (j + 1, dh)"
    by (simp add: pair_step_def case_prod_unfold j)
qed

theorem unmatched_sign_in_cursor_witness:
  "pair_step skewed 0 [] = Inr (3, [])
   \<and> pair_step [(''sign_in'', naive 2024 1 5 8 0 0)] 0 [] = Inr (1, [])"
proof -
  have a: "0 < length skewed" "fst (skewed ! 0) = ''sign_in''"
    by (simp_all add: skewed_def)
  have b: "(0::nat) < 2 \<and> 2 < length skewed \<and> fst (skewed ! 2) = ''sign_out''
      \<and> (\<forall>k. 0 < k \<and> k < 2 \<longrightarrow> fst (skewed ! k) \<noteq> ''sign_out'')
      \<and> dt_gt (snd (skewed ! 2)) (snd (skewed ! 0)) = Inr False"
    by (auto simp: skewed_not_later) (auto simp: skewed_def less_2_cases_iff)
  have 1: "pair_step skewed 0 [] = Inr (3, [])"
    using unmatched_sign_in_cursor [OF a, where j = 2 and dh = "[]"] b by simp
  have c: "0 < length [(''sign_in'', naive 2024 1 5 8 0 0)]"
    "fst ([(''sign_in'', naive 2024 1 5 8 0 0)] ! 0) = ''sign_in''"
    by simp_all
  have 2: "pair_step [(''sign_in'', naive 2024 1 5 8 0 0)] 0 [] = Inr (1, [])"
    using unmatched_sign_in_cursor [OF c, where j = 0 and dh = "[]"] by simp
  from 1 2 show ?thesis by simp
qed

section \<open>The payroll run store\<close>

lemma aggregate_ignores_payroll_runs:
  "aggregate_hours_by_day svc (db\<lparr>payroll_runs := rs\<rparr>) e y m = aggregate_hours_by_day svc db e y m"
  by (simp add: aggregate_hours_by_day_def query_attendance_def)

lemma compute_ignores_payroll_runs:
  "compute_for_employee svc (db\<lparr>payroll_runs := rs\<rparr>) e y m r = compute_for_employee svc db e y m r"
proof -
  have 1: "fetch_active_employee (db\<lparr>payroll_runs := rs\<rparr>) e = fetch_active_employee db e"
    by (simp add: fetch_active_employee_def)
  have 2: "get_employee_rate (db\<lparr>payroll_runs := rs\<rparr>) e = get_employee_rate db e"
    by (simp add: get_employee_rate_def 1)
  have 3: "sum_adjustments (db\<lparr>payroll_runs := rs\<rparr>) e y m = sum_adjustments db e y m"
    by (simp add: sum_adjustments_def)
  show ?thesis
    by (simp only: compute_for_employee_def aggregate_ignores_payroll_runs 1 2 3)
qed

definition scenario_result :: payroll_result where
  "scenario_result =
     \<lparr>pr_employee_id = 1, pr_full_name = ''Ann'', pr_period = ''2024-01'', pr_hourly_rate = 10,
      pr_regular_hours = 8, pr_overtime_hours = 3, pr_gross = 125, pr_adjustments = - 50,
      pr_tax = 1125 / 100, pr_net = 6375 / 100\<rparr>"

definition scenario_run :: "int \<Rightarrow> payroll_run" where
  "scenario_run rid =
     \<lparr>run_id = rid, run_employee_id = 1, run_year = 2024, run_month = 1, run_regular_hours = 8,
      run_overtime_hours = 3, run_hourly_rate = 10, run_gross_pay = 125,
      run_total_adjustments = - 50, run_net_pay = 6375 / 100\<rparr>"

lemma scenario_compute_rate:
  "compute_for_employee default_service (scenario_db\<lparr>payroll_runs := rs\<rparr>) 1 2024 1 (Some 10)
     = Inr scenario_result"
proof -
  have e: "fetch_active_employee scenario_db 1
             = Some \<lparr>emp_id = 1, emp_full_name = ''Ann'', emp_rate = 10, emp_active = 1\<rparr>"
    by (simp add: fetch_active_employee_def scenario_db_def)
  have a: "sum_adjustments scenario_db 1 2024 1 = - 50"
    by (simp add: sum_adjustments_def scenario_db_def)
  show ?thesis
    unfolding compute_ignores_payroll_runs
    by (simp add: compute_for_employee_def e a scenario_day_hours scenario_payroll
        scenario_result_def)
qed

lemma scenario_active: "query_active_employees (scenario_db\<lparr>payroll_runs := rs\<rparr>)
    = [\<lparr>emp_id = 1, emp_full_name = ''Ann'', emp_rate = 10, emp_active = 1\<rparr>]"
  by (simp add: query_active_employees_def scenario_db_def)

lemma scenario_generate:
  "generate_payroll_for_month default_service (scenario_db\<lparr>payroll_runs := rs\<rparr>) 2024 1
     = \<lparr>batch_db = scenario_db\<lparr>payroll_runs := insert_run 1 2024 1 scenario_result rs\<rparr>,
        batch_results = [scenario_result], batch_log = []\<rparr>"
  by (simp add: generate_payroll_for_month_def scenario_active scenario_compute_rate)

text \<open>
  Claim C1 fails on the code: \<open>generate_payroll_for_month\<close> inserts a row for each active
  employee without looking for an existing one. Generating January 2024 twice for one
  active employee leaves two rows for the key (1, 2024, 1), with ids 1 and 2.
\<close>

theorem generate_twice_two_rows:
  "payroll_runs (batch_db (generate_payroll_for_month default_service
      (batch_db (generate_payroll_for_month default_service scenario_db 2024 1)) 2024 1))
     = [scenario_run 1, scenario_run 2]
   \<and> filter (key_matches 1 2024 1) [scenario_run 1, scenario_run 2]
     = [scenario_run 1, scenario_run 2]"
proof -
  have 0: "scenario_db = scenario_db\<lparr>payroll_runs := []\<rparr>"
    by (simp add: scenario_db_def)
  have 1: "generate_payroll_for_month default_service scenario_db 2024 1
     = \<lparr>batch_db = scenario_db\<lparr>payroll_runs := insert_run 1 2024 1 scenario_result []\<rparr>,
        batch_results = [scenario_result], batch_log = []\<rparr>"
    by (subst 0) (simp only: scenario_generate)
  have 2: "insert_run 1 2024 1 scenario_result [] = [scenario_run 1]"
    by (simp add: insert_run_def next_run_id_def scenario_result_def scenario_run_def)
  have 3: "insert_run 1 2024 1 scenario_result [scenario_run 1] = [scenario_run 1, scenario_run 2]"
    by (simp add: insert_run_def next_run_id_def scenario_result_def scenario_run_def)
  show ?thesis
    by (simp add: 1 2 scenario_generate 3) (simp add: key_matches_def scenario_run_def)
qed

subsection \<open>\<^verbatim>\<open>persist_for_employee\<close> is an upsert\<close>

definition stored_as :: "payroll_run \<Rightarrow> payroll_result \<Rightarrow> bool" where
  \<comment> \<open>the computed columns of the row are the fields of the result\<close>
  "stored_as row pr =
     (run_regular_hours row = pr_regular_hours pr
      \<and> run_overtime_hours row = pr_overtime_hours pr
      \<and> run_hourly_rate row = pr_hourly_rate pr
      \<and> run_gross_pay row = pr_gross pr
      \<and> run_total_adjustments row = pr_adjustments pr
      \<and> run_net_pay row = pr_net pr)"

lemma filter_key_update_run:
  "filter (key_matches e y m) (update_run rid pr rs)
     = update_run rid pr (filter (key_matches e y m) rs)"
  by (induction rs) (auto simp: update_run_def key_matches_def)

lemma find_None_filter: "find P xs = None \<Longrightarrow> filter P xs = []"
  by (induction xs) (auto split: if_splits)

lemma find_Some_filter: "find P xs = Some x \<Longrightarrow> \<exists>ys. filter P xs = x # ys"
  by (induction xs) (auto split: if_splits)

lemma filter_find: "filter P xs = x # ys \<Longrightarrow> find P xs = Some x"
  by (induction xs) (auto split: if_splits)

lemma persist_key_rows:
  assumes c: "compute_for_employee svc db e y m r = Inr pr"
    and one: "length (filter (key_matches e y m) (payroll_runs db)) \<le> 1"
  shows "\<exists>rs row. persist_for_employee svc db e y m r = (Inr pr, db\<lparr>payroll_runs := rs\<rparr>)
           \<and> filter (key_matches e y m) rs = [row] \<and> stored_as row pr
           \<and> (if filter (key_matches e y m) (payroll_runs db) = []
               then length rs = length (payroll_runs db) + 1
               else length rs = length (payroll_runs db))"
proof (cases "fetch_payroll_run db e y m")
  case None
  then have empty: "filter (key_matches e y m) (payroll_runs db) = []"
    by (simp add: fetch_payroll_run_def find_None_filter)
  have p: "persist_for_employee svc db e y m r
             = (Inr pr, db\<lparr>payroll_runs := insert_run e y m pr (payroll_runs db)\<rparr>)"
    by (simp add: persist_for_employee_def c None)
  have "filter (key_matches e y m) (insert_run e y m pr (payroll_runs db))
          = [last (insert_run e y m pr (payroll_runs db))]"
    by (simp add: insert_run_def empty key_matches_def)
  moreover have "stored_as (last (insert_run e y m pr (payroll_runs db))) pr"
    by (simp add: insert_run_def stored_as_def)
  moreover have "length (insert_run e y m pr (payroll_runs db)) = length (payroll_runs db) + 1"
    by (simp add: insert_run_def)
  ultimately show ?thesis
    using p empty by auto
next
  case (Some x)
  then obtain ys where "filter (key_matches e y m) (payroll_runs db) = x # ys"
    by (auto simp: fetch_payroll_run_def dest: find_Some_filter)
  with one have single: "filter (key_matches e y m) (payroll_runs db) = [x]"
    by simp
  have p: "persist_for_employee svc db e y m r
             = (Inr pr, db\<lparr>payroll_runs := update_run (run_id x) pr (payroll_runs db)\<rparr>)"
    by (simp add: persist_for_employee_def c Some)
  have "filter (key_matches e y m) (update_run (run_id x) pr (payroll_runs db))
          = update_run (run_id x) pr [x]"
    by (simp add: filter_key_update_run single)
  moreover have "\<exists>row. update_run (run_id x) pr [x] = [row] \<and> stored_as row pr"
    by (simp add: update_run_def stored_as_def)
  moreover have "length (update_run (run_id x) pr (payroll_runs db)) = length (payroll_runs db)"
    by (simp add: update_run_def)
  ultimately show ?thesis
    using p single by auto
qed

text \<open>
  Claim C4, amended. When the store holds at most one row for the key (employee_id, year,
  month) and \<open>persist_for_employee\<close> succeeds, a second call with the same inputs succeeds with
  the same result and leaves exactly one row for that key, whose computed columns are
  those of the second call's result; the second call updates the row in place (the table
  keeps its size).
\<close>

theorem persist_twice_one_row:
  assumes first: "persist_for_employee svc db e y m r = (Inr pr1, db1)"
    and one: "length (filter (key_matches e y m) (payroll_runs db)) \<le> 1"
  shows "\<exists>pr2 db2 row.
           persist_for_employee svc db1 e y m r = (Inr pr2, db2) \<and> pr2 = pr1
           \<and> filter (key_matches e y m) (payroll_runs db2) = [row] \<and> stored_as row pr2
           \<and> length (payroll_runs db2) = length (payroll_runs db1)"
proof -
  from first have c: "compute_for_employee svc db e y m r = Inr pr1"
    by (auto simp: persist_for_employee_def split: sum.splits option.splits)
  from persist_key_rows [OF c one] first
  obtain rs row where db1: "db1 = db\<lparr>payroll_runs := rs\<rparr>"
    and rows: "filter (key_matches e y m) rs = [row]"
    by auto
  have c1: "compute_for_employee svc db1 e y m r = Inr pr1"
    by (simp add: db1 compute_ignores_payroll_runs c)
  have one1: "length (filter (key_matches e y m) (payroll_runs db1)) \<le> 1"
    by (simp add: db1 rows)
  have ne: "filter (key_matches e y m) (payroll_runs db1) \<noteq> []"
    by (simp add: db1 rows)
  from persist_key_rows [OF c1 one1] ne show ?thesis
    by auto
qed

lemma scenario_persist:
  "persist_for_employee default_service scenario_db 1 2024 1 None
     = (Inr scenario_result, scenario_db\<lparr>payroll_runs := [scenario_run 1]\<rparr>)"
proof -
  have f: "fetch_payroll_run scenario_db 1 2024 1 = None"
    by (simp add: fetch_payroll_run_def scenario_db_def)
  have r: "payroll_runs scenario_db = []"
    by (simp add: scenario_db_def)
  have i: "insert_run 1 2024 1 scenario_result [] = [scenario_run 1]"
    by (simp add: insert_run_def next_run_id_def scenario_result_def scenario_run_def)
  have c: "compute_for_employee default_service scenario_db 1 2024 1 None = Inr scenario_result"
    by (simp add: scenario_compute scenario_result_def)
  show ?thesis
    by (simp add: persist_for_employee_def c f r i)
qed

theorem persist_twice_one_row_witness:
  "persist_for_employee default_service scenario_db 1 2024 1 None
     = (Inr scenario_result, scenario_db\<lparr>payroll_runs := [scenario_run 1]\<rparr>)
   \<and> length (filter (key_matches 1 2024 1) (payroll_runs scenario_db)) \<le> 1
   \<and> (\<exists>db2 row.
         persist_for_employee default_service (scenario_db\<lparr>payroll_runs := [scenario_run 1]\<rparr>)
           1 2024 1 None = (Inr scenario_result, db2)
         \<and> filter (key_matches 1 2024 1) (payroll_runs db2) = [row]
         \<and> stored_as row scenario_result
         \<and> length (payroll_runs db2) = 1)"
proof -
  have one: "length (filter (key_matches 1 2024 1) (payroll_runs scenario_db)) \<le> 1"
    by (simp add: scenario_db_def)
  from persist_twice_one_row [OF scenario_persist one] one scenario_persist
  show ?thesis
    by auto
qed

subsection \<open>A key that is already stored twice\<close>

definition duplicated_db :: database where
  \<comment> \<open>the store after January 2024 was generated twice\<close>
  "duplicated_db = scenario_db\<lparr>payroll_runs := [scenario_run 1, scenario_run 2]\<rparr>"

lemma scenario_generated_twice:
  "batch_db (generate_payroll_for_month default_service
      (batch_db (generate_payroll_for_month default_service scenario_db 2024 1)) 2024 1)
     = duplicated_db"
proof -
  have 0: "scenario_db = scenario_db\<lparr>payroll_runs := []\<rparr>"
    by (simp add: scenario_db_def)
  have 1: "generate_payroll_for_month default_service scenario_db 2024 1
     = \<lparr>batch_db = scenario_db\<lparr>payroll_runs := insert_run 1 2024 1 scenario_result []\<rparr>,
        batch_results = [scenario_result], batch_log = []\<rparr>"
    by (subst 0) (simp only: scenario_generate)
  have 2: "insert_run 1 2024 1 scenario_result [] = [scenario_run 1]"
    by (simp add: insert_run_def next_run_id_def scenario_result_def scenario_run_def)
  have 3: "insert_run 1 2024 1 scenario_result [scenario_run 1] = [scenario_run 1, scenario_run 2]"
    by (simp add: insert_run_def next_run_id_def scenario_result_def scenario_run_def)
  show ?thesis
    by (simp add: 1 2 scenario_generate 3 duplicated_db_def)
qed

lemma duplicated_persist:
  "persist_for_employee default_service duplicated_db 1 2024 1 None
     = (Inr scenario_result, duplicated_db)"
proof -
  have c: "compute_for_employee default_service duplicated_db 1 2024 1 None = Inr scenario_result"
    unfolding duplicated_db_def compute_ignores_payroll_runs
    by (simp add: scenario_compute scenario_result_def)
  have f: "fetch_payroll_run duplicated_db 1 2024 1 = Some (scenario_run 1)"
    by (simp add: fetch_payroll_run_def duplicated_db_def key_matches_def scenario_run_def)
  have u: "update_run 1 scenario_result [scenario_run 1, scenario_run 2]
             = [scenario_run 1, scenario_run 2]"
    by (simp add: update_run_def scenario_run_def scenario_result_def)
  have i: "run_id (scenario_run 1) = 1"
    by (simp add: scenario_run_def)
  show ?thesis
    by (simp add: persist_for_employee_def c f i) (simp add: duplicated_db_def u)
qed

text \<open>
  Claim C4, as stated, fails on a store that already holds two rows for the key, which is
  the store that generating January 2024 twice leaves: \<open>persist_for_employee\<close> updates the
  first of the two rows by its id, so after two calls with the same inputs the key still
  has two rows.
\<close>

theorem persist_twice_duplicated_counterexample:
  "batch_db (generate_payroll_for_month default_service
      (batch_db (generate_payroll_for_month default_service scenario_db 2024 1)) 2024 1)
     = duplicated_db
   \<and> persist_for_employee default_service duplicated_db 1 2024 1 None
       = (Inr scenario_result, duplicated_db)
   \<and> persist_for_employee default_service
         (snd (persist_for_employee default_service duplicated_db 1 2024 1 None)) 1 2024 1 None
       = (Inr scenario_result, duplicated_db)
   \<and> filter (key_matches 1 2024 1) (payroll_runs duplicated_db)
       = [scenario_run 1, scenario_run 2]
   \<and> length (filter (key_matches 1 2024 1) (payroll_runs duplicated_db)) = 2"
  by (simp add: scenario_generated_twice duplicated_persist)
    (simp add: duplicated_db_def key_matches_def scenario_run_def)

section \<open>Failures of a single employee\<close>

definition mixed_db :: database where
  \<comment> \<open>Ann's sign-out was entered with a UTC offset; Bob worked 09:00 to 17:00\<close>
  "mixed_db =
     \<lparr>employees =
        [\<lparr>emp_id = 1, emp_full_name = ''Ann'', emp_rate = 10, emp_active = 1\<rparr>,
         \<lparr>emp_id = 2, emp_full_name = ''Bob'', emp_rate = 20, emp_active = 1\<rparr>],
      attendance_rows =
        [\<lparr>att_employee_id = 1, att_event = ''sign_in'', att_timestamp = ''2024-01-05T08:00:00''\<rparr>,
         \<lparr>att_employee_id = 1, att_event = ''sign_out'',
            att_timestamp = ''2024-01-05T17:00:00+00:00''\<rparr>,
         \<lparr>att_employee_id = 2, att_event = ''sign_in'', att_timestamp = ''2024-01-05T09:00:00''\<rparr>,
         \<lparr>att_employee_id = 2, att_event = ''sign_out'', att_timestamp = ''2024-01-05T17:00:00''\<rparr>],
      adjustments = [],
      payroll_runs = []\<rparr>"

definition bob_result :: payroll_result where
  "bob_result =
     \<lparr>pr_employee_id = 2, pr_full_name = ''Bob'', pr_period = ''2024-01'', pr_hourly_rate = 20,
      pr_regular_hours = 8, pr_overtime_hours = 0, pr_gross = 160, pr_adjustments = 0,
      pr_tax = 24, pr_net = 136\<rparr>"

lemma mixed_rows_ann:
  "query_attendance mixed_db 1 (in_month_window 2024 1) =
     [\<lparr>att_employee_id = 1, att_event = ''sign_in'', att_timestamp = ''2024-01-05T08:00:00''\<rparr>,
      \<lparr>att_employee_id = 1, att_event = ''sign_out'',
         att_timestamp = ''2024-01-05T17:00:00+00:00''\<rparr>]"
  by (simp add: query_attendance_def in_month_window_def month_window_2024_01 mixed_db_def)

lemma mixed_rows_bob:
  "query_attendance mixed_db 2 (in_month_window 2024 1) =
     [\<lparr>att_employee_id = 2, att_event = ''sign_in'', att_timestamp = ''2024-01-05T09:00:00''\<rparr>,
      \<lparr>att_employee_id = 2, att_event = ''sign_out'', att_timestamp = ''2024-01-05T17:00:00''\<rparr>]"
  by (simp add: query_attendance_def in_month_window_def month_window_2024_01 mixed_db_def)

lemma mixed_parsed_ann:
  "parse_rows parse_service (query_attendance mixed_db 1 (in_month_window 2024 1)) =
     [(''sign_in'', naive 2024 1 5 8 0 0),
      (''sign_out'', (naive 2024 1 5 17 0 0)\<lparr>dt_tzoffset := Some 0\<rparr>)]"
  unfolding mixed_rows_ann
  by (simp add: parse_rows_def List.map_filter_def parse_defs naive_def)

lemma mixed_parsed_bob:
  "parse_rows parse_service (query_attendance mixed_db 2 (in_month_window 2024 1)) =
     [(''sign_in'', naive 2024 1 5 9 0 0), (''sign_out'', naive 2024 1 5 17 0 0)]"
  unfolding mixed_rows_bob
  by (simp add: parse_rows_def List.map_filter_def parse_defs naive_def)

lemma mixed_hours_ann: "aggregate_hours_by_day default_service mixed_db 1 2024 1 = Inl TypeError"
  by (simp add: aggregate_hours_by_day_def default_service_def mixed_parsed_ann
      pair_loop.simps pair_step_def find_sign_out.simps naive_def dt_gt_def dt_sub_def)

lemma mixed_hours_bob:
  "aggregate_hours_by_day default_service mixed_db 2 2024 1 = Inr [(''2024-01-05'', 8)]"
  by (simp add: aggregate_hours_by_day_def default_service_def mixed_parsed_bob
      pair_loop.simps pair_step_def find_sign_out.simps naive_def time_defs fmt_defs)

lemma mixed_compute_ann:
  "compute_for_employee default_service mixed_db 1 2024 1 r = Inl TypeError"
proof -
  have e: "fetch_active_employee mixed_db 1
             = Some \<lparr>emp_id = 1, emp_full_name = ''Ann'', emp_rate = 10, emp_active = 1\<rparr>"
    by (simp add: fetch_active_employee_def mixed_db_def)
  show ?thesis
    by (cases r) (simp_all add: compute_for_employee_def get_employee_rate_def e mixed_hours_ann)
qed

lemma mixed_compute_bob:
  "compute_for_employee default_service mixed_db 2 2024 1 (Some 20) = Inr bob_result"
proof -
  have e: "fetch_active_employee mixed_db 2
             = Some \<lparr>emp_id = 2, emp_full_name = ''Bob'', emp_rate = 20, emp_active = 1\<rparr>"
    by (simp add: fetch_active_employee_def mixed_db_def)
  have a: "sum_adjustments mixed_db 2 2024 1 = 0"
    by (simp add: sum_adjustments_def mixed_db_def)
  have p: "payroll_of default_service 2 ''Bob'' 2024 1 20 [(''2024-01-05'', 8)] 0 = bob_result"
  proof -
    have h: "regular_hours_of [(''2024-01-05'', 8)] = 8"
      "overtime_hours_of [(''2024-01-05'', 8)] = 0"
      by (simp_all add: regular_hours_of_def overtime_hours_of_def dict_values_def)
    have s1: "fl (8 * 20) = 160"
      by (simp add: fl_defs Let_def)
    have s2: "fl (0 * 20) = 0"
      by (simp add: fl_defs Let_def)
    have s3: "fl (0 * (3 / 2)) = 0"
      by (simp add: fl_defs Let_def)
    have s4: "fl (160 + 0) = 160"
      by (simp add: fl_defs Let_def)
    have s5: "py_round2 160 = 160"
      by (simp add: fl_defs Let_def)
    have s6: "py_round2 0 = 0"
      by (simp add: fl_defs Let_def)
    have s7: "fl (160 + 0) = 160"
      by (simp add: fl_defs Let_def)
    have s8: "fl (160 * (5404319552844595 / 36028797018963968)) = 24"
      by (simp add: fl_defs Let_def)
    have s9: "py_round2 24 = 24"
      by (simp add: fl_defs Let_def)
    have s10: "fl (160 - 24) = 136"
      by (simp add: fl_defs Let_def)
    have s11: "py_round2 136 = 136"
      by (simp add: fl_defs Let_def)
    have s12: "py_round2 20 = 20"
      by (simp add: fl_defs Let_def)
    have s13: "py_round2 8 = 8"
      by (simp add: fl_defs Let_def)
    have s14: "py_round2 0 = 0"
      by (simp add: fl_defs Let_def)
    show ?thesis
      using payroll_of_trace [where svc = default_service, unfolded default_service_values,
        OF h s1 s2 s3 s4 s5 s6 s7 s8 s9 s10 s11 s12 s13 s14]
      by (simp add: period_2024_01 bob_result_def)
  qed
  show ?thesis
    by (simp add: compute_for_employee_def e a mixed_hours_bob p)
qed

subsection \<open>\<^verbatim>\<open>generate_payroll_for_month\<close> continues after a failure\<close>

definition successes :: "payroll_service \<Rightarrow> database \<Rightarrow> int \<Rightarrow> int \<Rightarrow> employee list \<Rightarrow> payroll_result list" where
  \<comment> \<open>the results of the employees whose computation succeeds, in the order of the rows\<close>
  "successes svc db year month emps =
     concat (map (\<lambda>emp. case compute_for_employee svc db (emp_id emp) year month
                                (Some (emp_rate emp)) of
                          Inl e \<Rightarrow> []
                        | Inr pr \<Rightarrow> [pr]) emps)"

definition failures :: "payroll_service \<Rightarrow> database \<Rightarrow> int \<Rightarrow> int \<Rightarrow> employee list \<Rightarrow> (int \<times> py_error) list" where
  \<comment> \<open>the employees whose computation fails, each with its error\<close>
  "failures svc db year month emps =
     concat (map (\<lambda>emp. case compute_for_employee svc db (emp_id emp) year month
                                (Some (emp_rate emp)) of
                          Inl e \<Rightarrow> [(emp_id emp, e)]
                        | Inr pr \<Rightarrow> []) emps)"

lemma successes_ignores_payroll_runs:
  "successes svc (db\<lparr>payroll_runs := rs\<rparr>) y m emps = successes svc db y m emps"
  by (simp add: successes_def compute_ignores_payroll_runs)

lemma failures_ignores_payroll_runs:
  "failures svc (db\<lparr>payroll_runs := rs\<rparr>) y m emps = failures svc db y m emps"
  by (simp add: failures_def compute_ignores_payroll_runs)

lemma generate_loop_results:
  "batch_results (generate_loop svc y m emps b)
     = batch_results b @ successes svc (batch_db b) y m emps"
proof (induction emps arbitrary: b)
  case Nil
  then show ?case by (simp add: successes_def)
next
  case (Cons emp emps)
  show ?case
  proof (cases "compute_for_employee svc (batch_db b) (emp_id emp) y m (Some (emp_rate emp))")
    case (Inl e)
    then show ?thesis
      by (simp add: Cons.IH) (simp add: successes_def)
  next
    case (Inr pr)
    then show ?thesis
      by (simp add: Cons.IH successes_ignores_payroll_runs) (simp add: successes_def)
  qed
qed

lemma generate_loop_log:
  "batch_log (generate_loop svc y m emps b)
     = batch_log b @ failures svc (batch_db b) y m emps"
proof (induction emps arbitrary: b)
  case Nil
  then show ?case by (simp add: failures_def)
next
  case (Cons emp emps)
  show ?case
  proof (cases "compute_for_employee svc (batch_db b) (emp_id emp) y m (Some (emp_rate emp))")
    case (Inl e)
    then show ?thesis
      by (simp add: Cons.IH) (simp add: failures_def)
  next
    case (Inr pr)
    then show ?thesis
      by (simp add: Cons.IH failures_ignores_payroll_runs) (simp add: failures_def)
  qed
qed

lemma generate_loop_rows:
  "\<exists>new. batch_db (generate_loop svc y m emps b)
            = (batch_db b)\<lparr>payroll_runs := payroll_runs (batch_db b) @ new\<rparr>
         \<and> map run_employee_id new = map pr_employee_id (successes svc (batch_db b) y m emps)"
proof (induction emps arbitrary: b)
  case Nil
  then show ?case by (simp add: successes_def)
next
  case (Cons emp emps)
  show ?case
  proof (cases "compute_for_employee svc (batch_db b) (emp_id emp) y m (Some (emp_rate emp))")
    case (Inl e)
    from Cons.IH [of "b\<lparr>batch_log := batch_log b @ [(emp_id emp, e)]\<rparr>"]
    show ?thesis
      using Inl by (simp add: successes_def)
  next
    case (Inr pr)
    let ?rs = "insert_run (emp_id emp) y m pr (payroll_runs (batch_db b))"
    let ?b = "b\<lparr>batch_db := (batch_db b)\<lparr>payroll_runs := ?rs\<rparr>,
                 batch_results := batch_results b @ [pr]\<rparr>"
    from Cons.IH [of ?b] obtain new where
      new: "batch_db (generate_loop svc y m emps ?b) = (batch_db b)\<lparr>payroll_runs := ?rs @ new\<rparr>"
        "map run_employee_id new = map pr_employee_id (successes svc (batch_db b) y m emps)"
      by (auto simp: successes_ignores_payroll_runs)
    have pid: "pr_employee_id pr = emp_id emp"
      using Inr
      by (auto simp: compute_for_employee_def payroll_of_def Let_def split: sum.splits option.splits)
    obtain row where row: "?rs = payroll_runs (batch_db b) @ [row]" "run_employee_id row = emp_id emp"
      by (simp add: insert_run_def)
    have "batch_db (generate_loop svc y m (emp # emps) b)
            = (batch_db b)\<lparr>payroll_runs := payroll_runs (batch_db b) @ (row # new)\<rparr>"
      using Inr new(1) row(1) by simp
    moreover have "map run_employee_id (row # new)
        = map pr_employee_id (successes svc (batch_db b) y m (emp # emps))"
      using Inr new(2) row(2) pid by (simp add: successes_def)
    ultimately show ?thesis by blast
  qed
qed

text \<open>
  Claim C9. \<open>generate_payroll_for_month\<close> returns for every database: the failure of one
  employee is caught and logged and the loop goes on. The returned list holds exactly the
  results of the active employees whose computation succeeded, in order; the log holds
  exactly those that failed; and one row is inserted for each success and none for a
  failure. With Ann's computation failing and Bob's succeeding, the batch returns Bob's
  result alone, logs Ann's error and stores one row, Bob's.
\<close>

theorem generate_partial_success:
  "batch_results (generate_payroll_for_month svc db y m)
     = successes svc db y m (query_active_employees db)
   \<and> batch_log (generate_payroll_for_month svc db y m)
     = failures svc db y m (query_active_employees db)
   \<and> (\<exists>new. batch_db (generate_payroll_for_month svc db y m)
                = db\<lparr>payroll_runs := payroll_runs db @ new\<rparr>
            \<and> map run_employee_id new
                = map pr_employee_id (successes svc db y m (query_active_employees db)))
   \<and> compute_for_employee default_service mixed_db 1 2024 1 (Some 10) = Inl TypeError
   \<and> batch_results (generate_payroll_for_month default_service mixed_db 2024 1) = [bob_result]
   \<and> batch_log (generate_payroll_for_month default_service mixed_db 2024 1) = [(1, TypeError)]
   \<and> map run_employee_id
        (payroll_runs (batch_db (generate_payroll_for_month default_service mixed_db 2024 1)))
       = [2]"
proof -
  let ?b0 = "\<lambda>d. \<lparr>batch_db = d, batch_results = [], batch_log = []\<rparr>"
  have 1: "batch_results (generate_payroll_for_month svc db y m)
             = successes svc db y m (query_active_employees db)" for svc db y m
    by (simp add: generate_payroll_for_month_def generate_loop_results)
  have 2: "batch_log (generate_payroll_for_month svc db y m)
             = failures svc db y m (query_active_employees db)" for svc db y m
    by (simp add: generate_payroll_for_month_def generate_loop_log)
  have 3: "\<exists>new. batch_db (generate_payroll_for_month svc db y m)
                = db\<lparr>payroll_runs := payroll_runs db @ new\<rparr>
            \<and> map run_employee_id new
                = map pr_employee_id (successes svc db y m (query_active_employees db))"
    for svc db y m
    using generate_loop_rows [of svc y m "query_active_employees db" "?b0 db"]
    by (simp add: generate_payroll_for_month_def)
  have act: "query_active_employees mixed_db
      = [\<lparr>emp_id = 1, emp_full_name = ''Ann'', emp_rate = 10, emp_active = 1\<rparr>,
         \<lparr>emp_id = 2, emp_full_name = ''Bob'', emp_rate = 20, emp_active = 1\<rparr>]"
    by (simp add: query_active_employees_def mixed_db_def)
  have s: "successes default_service mixed_db 2024 1 (query_active_employees mixed_db) = [bob_result]"
    by (simp add: act successes_def mixed_compute_ann mixed_compute_bob)
  have f: "failures default_service mixed_db 2024 1 (query_active_employees mixed_db) = [(1, TypeError)]"
    by (simp add: act failures_def mixed_compute_ann mixed_compute_bob)
  have rows: "map run_employee_id
        (payroll_runs (batch_db (generate_payroll_for_month default_service mixed_db 2024 1))) = [2]"
  proof -
    from 3 [of default_service mixed_db 2024 1] obtain new where
      "batch_db (generate_payroll_for_month default_service mixed_db 2024 1)
         = mixed_db\<lparr>payroll_runs := payroll_runs mixed_db @ new\<rparr>"
      "map run_employee_id new = map pr_employee_id [bob_result]"
      by (auto simp: s)
    then show ?thesis
      by (simp add: mixed_db_def bob_result_def)
  qed
  show ?thesis
    using 1 [of svc db y m] 2 [of svc db y m] 3 [of svc db y m] rows
    by (simp add: 1 2 s f mixed_compute_ann)
qed

text \<open>
  Claim C7 fails on the code in one case: an existing, active employee whose sign-in is a
  naive timestamp and whose matched sign-out carries a UTC offset. Both timestamps parse,
  the comparison of the two raises \<^verbatim>\<open>TypeError\<close>, and nothing in
  \<open>aggregate_hours_by_day\<close> or \<open>compute_for_employee\<close> catches it.
\<close>

theorem compute_fails_for_active_employee:
  "fetch_active_employee mixed_db 1
     = Some \<lparr>emp_id = 1, emp_full_name = ''Ann'', emp_rate = 10, emp_active = 1\<rparr>
   \<and> compute_for_employee default_service mixed_db 1 2024 1 None = Inl TypeError
   \<and> persist_for_employee default_service mixed_db 1 2024 1 None = (Inl TypeError, mixed_db)"
  by (simp add: mixed_compute_ann persist_for_employee_def)
    (simp add: fetch_active_employee_def mixed_db_def)

section \<open>The month window\<close>

text \<open>
  The window of a payroll period is a pair of strings, and the rows of the period are selected
  by comparing the stored timestamp text with them. The comparison agrees with the calendar
  on the texts that \<^verbatim>\<open>isoformat\<close> writes, because every field is zero-padded to a fixed
  width.
\<close>

definition format_offset :: "int option \<Rightarrow> string" where
  \<comment> \<open>the UTC offset, in microseconds, as \<^verbatim>\<open>isoformat\<close> prints it\<close>
  "format_offset tz =
     (case tz of
        None \<Rightarrow> []
      | Some off \<Rightarrow>
          (let a = \<bar>off\<bar>;
               ss = a div 1000000 mod 60;
               us = a mod 1000000
           in (if off < 0 then ''-'' else ''+'') @ fmt_0d 2 (a div 3600000000) @ '':''
              @ fmt_0d 2 (a div 60000000 mod 60)
              @ (if ss \<noteq> 0 \<or> us \<noteq> 0
                 then '':'' @ fmt_0d 2 ss @ (if us \<noteq> 0 then ''.'' @ fmt_0d 6 us else [])
                 else [])))"

definition isoformat :: "datetime \<Rightarrow> string" where
  \<comment> \<open>\<^verbatim>\<open>dt.isoformat()\<close>, the text that \<^verbatim>\<open>sign_in\<close> and \<^verbatim>\<open>sign_out\<close> store\<close>
  "isoformat dt =
     date_isoformat dt @ ''T'' @ fmt_0d 2 (dt_hour dt) @ '':'' @ fmt_0d 2 (dt_minute dt) @ '':''
     @ fmt_0d 2 (dt_second dt)
     @ (if dt_microsecond dt \<noteq> 0 then ''.'' @ fmt_0d 6 (dt_microsecond dt) else [])
     @ format_offset (dt_tzoffset dt)"

definition valid_datetime :: "datetime \<Rightarrow> bool" where
  \<comment> \<open>the field ranges that the \<^verbatim>\<open>datetime\<close> constructor enforces\<close>
  "valid_datetime dt \<longleftrightarrow>
     1 \<le> dt_year dt \<and> dt_year dt \<le> 9999 \<and> 1 \<le> dt_month dt \<and> dt_month dt \<le> 12
     \<and> 1 \<le> dt_day dt \<and> dt_day dt \<le> days_in_month (dt_year dt) (dt_month dt)
     \<and> 0 \<le> dt_hour dt \<and> dt_hour dt \<le> 23 \<and> 0 \<le> dt_minute dt \<and> dt_minute dt \<le> 59
     \<and> 0 \<le> dt_second dt \<and> dt_second dt \<le> 59
     \<and> 0 \<le> dt_microsecond dt \<and> dt_microsecond dt \<le> 999999"


subsection \<open>Zero-padded numbers are ordered like the numbers\<close>

lemma of_char_digit_char: "n < 10 \<Longrightarrow> of_char (digit_char n) = 48 + n"
proof -
  assume "n < 10"
  then consider "n = 0" | "n = 1" | "n = 2" | "n = 3" | "n = 4" | "n = 5" | "n = 6" | "n = 7"
    | "n = 8" | "n = 9"
    by atomize_elim arith
  then show ?thesis
    by cases (simp_all add: digit_char_def)
qed

lemma digit_char_less: "a < 10 \<Longrightarrow> b < 10 \<Longrightarrow> digit_char a < digit_char b \<longleftrightarrow> a < b"
  by (simp add: less_char_def of_char_digit_char)

lemma digit_char_eq: "a < 10 \<Longrightarrow> b < 10 \<Longrightarrow> digit_char a = digit_char b \<longleftrightarrow> a = b"
proof
  assume "a < 10" "b < 10" "digit_char a = digit_char b"
  then have "(of_char (digit_char a) :: nat) = of_char (digit_char b)" by simp
  with \<open>a < 10\<close> \<open>b < 10\<close> show "a = b" by (simp add: of_char_digit_char)
qed simp

lemma digits_1: "n < 10 \<Longrightarrow> digits n = [digit_char n]"
  by (subst digits.simps) simp

lemma digits_2: "10 \<le> n \<Longrightarrow> n < 100 \<Longrightarrow> digits n = [digit_char (n div 10), digit_char (n mod 10)]"
  by (subst digits.simps) (simp add: digits_1)

lemma digits_3:
  "100 \<le> n \<Longrightarrow> n < 1000
     \<Longrightarrow> digits n = [digit_char (n div 100), digit_char (n div 10 mod 10), digit_char (n mod 10)]"
  by (subst digits.simps) (simp add: digits_2 div_mult2_eq [symmetric])

lemma digits_4:
  "1000 \<le> n \<Longrightarrow> n < 10000
     \<Longrightarrow> digits n = [digit_char (n div 1000), digit_char (n div 100 mod 10),
                      digit_char (n div 10 mod 10), digit_char (n mod 10)]"
  by (subst digits.simps) (simp add: digits_3 div_mult2_eq [symmetric])

lemma rep_2: "replicate 2 c = [c, c]"
  by (simp add: numeral_2_eq_2)

lemma rep_3: "replicate 3 c = [c, c, c]"
  by (simp add: numeral_3_eq_3)

lemma fmt_2: 
  assumes "0 \<le> n" "n < 100"
  shows "fmt_0d 2 n = [digit_char (nat n div 10), digit_char (nat n mod 10)]"
proof (cases "nat n < 10")
  case True
  then show ?thesis using assms by (simp add: fmt_0d_def digits_1 digit_char_def)
next
  case False
  then show ?thesis using assms by (simp add: fmt_0d_def digits_2)
qed

lemma fmt_4:
  assumes "0 \<le> n" "n < 10000"
  shows "fmt_0d 4 n = [digit_char (nat n div 1000), digit_char (nat n div 100 mod 10),
                       digit_char (nat n div 10 mod 10), digit_char (nat n mod 10)]"
proof -
  consider "nat n < 10" | "10 \<le> nat n" "nat n < 100" | "100 \<le> nat n" "nat n < 1000"
    | "1000 \<le> nat n" "nat n < 10000"
    using assms by linarith
  then show ?thesis
  proof cases
    case 1
    then show ?thesis using assms by (simp add: fmt_0d_def digits_1 digit_char_def rep_2 rep_3)
  next
    case 2
    then show ?thesis using assms
      by (simp add: fmt_0d_def digits_2 digit_char_def rep_2 rep_3)
  next
    case 3
    then show ?thesis using assms
      by (simp add: fmt_0d_def digits_3 digit_char_def rep_2 rep_3)
  next
    case 4
    then show ?thesis using assms by (simp add: fmt_0d_def digits_4)
  qed
qed


lemma append_less_iff:
  "length a = length b \<Longrightarrow> a @ x < b @ y \<longleftrightarrow> a < b \<or> a = b \<and> x < y"
  by (induction a b rule: list_induct2) auto

lemma append_le_iff:
  "length a = length b \<Longrightarrow> a @ x \<le> b @ y \<longleftrightarrow> a < b \<or> a = b \<and> x \<le> y"
  by (induction a b rule: list_induct2) auto

lemma length_fmt_2: "0 \<le> n \<Longrightarrow> n < 100 \<Longrightarrow> length (fmt_0d 2 n) = 2"
  by (simp add: fmt_2)

lemma length_fmt_4: "0 \<le> n \<Longrightarrow> n < 10000 \<Longrightarrow> length (fmt_0d 4 n) = 4"
  by (simp add: fmt_4)

lemma nat_less_div_mod:
  fixes m n k :: nat
  assumes "0 < k"
  shows "m < n \<longleftrightarrow> m div k < n div k \<or> m div k = n div k \<and> m mod k < n mod k"
proof -
  have m: "m = k * (m div k) + m mod k" and n: "n = k * (n div k) + n mod k"
    by simp_all
  have mk: "m mod k < k" and nk: "n mod k < k"
    using assms by simp_all
  show ?thesis
  proof (cases "m div k < n div k")
    case True
    then have "k * Suc (m div k) \<le> k * (n div k)"
      by (intro mult_le_mono2) simp
    then have "k * (m div k) + k \<le> k * (n div k)"
      by simp
    with mk have "k * (m div k) + m mod k < k * (n div k) + n mod k"
      by linarith
    with m n have "m < n"
      by simp
    with True show ?thesis
      by simp
  next
    case False
    show ?thesis
    proof (cases "m div k = n div k")
      case True
      have "k * (n div k) + m mod k = m"
        using mult_div_mod_eq [of k m] True by simp
      moreover have "k * (n div k) + n mod k = n"
        by simp
      ultimately have "m < n \<longleftrightarrow> m mod k < n mod k"
        by arith
      with True show ?thesis
        by simp
    next
      case ne: False
      with False have "n div k < m div k"
        by simp
      then have "k * Suc (n div k) \<le> k * (m div k)"
        by (intro mult_le_mono2) simp
      then have "k * (n div k) + k \<le> k * (m div k)"
        by simp
      with nk have "k * (n div k) + n mod k < k * (m div k) + m mod k"
        by linarith
      with m n have "n < m"
        by simp
      with False ne show ?thesis
        by simp
    qed
  qed
qed

lemma nat_eq_div_mod:
  fixes m n k :: nat
  shows "m = n \<longleftrightarrow> m div k = n div k \<and> m mod k = n mod k"
  by (metis div_mult_mod_eq)

lemma div_10_10: "(m::nat) div 10 div 10 = m div 100"
  by (simp add: div_mult2_eq [symmetric])

lemma div_100_10: "(m::nat) div 100 div 10 = m div 1000"
  by (simp add: div_mult2_eq [symmetric])

lemma digits_2_less:
  fixes m n :: nat
  shows "m < n \<longleftrightarrow>
    m div 10 < n div 10 \<or> m div 10 = n div 10 \<and> m mod 10 < n mod 10"
  by (rule nat_less_div_mod) simp

lemma digits_2_eq:
  fixes m n :: nat
  shows "m = n \<longleftrightarrow> m div 10 = n div 10 \<and> m mod 10 = n mod 10"
  by (rule nat_eq_div_mod)

lemma digits_4_eq:
  fixes m n :: nat
  shows "m = n \<longleftrightarrow>
    m div 1000 = n div 1000 \<and> m div 100 mod 10 = n div 100 mod 10 \<and>
    m div 10 mod 10 = n div 10 mod 10 \<and> m mod 10 = n mod 10"
proof -
  have "m = n \<longleftrightarrow> m div 10 = n div 10 \<and> m mod 10 = n mod 10"
    by (rule nat_eq_div_mod)
  moreover have "m div 10 = n div 10 \<longleftrightarrow> m div 100 = n div 100 \<and> m div 10 mod 10 = n div 10 mod 10"
    using nat_eq_div_mod [of "m div 10" "n div 10" 10] by (simp only: div_10_10)
  moreover have "m div 100 = n div 100 \<longleftrightarrow>
      m div 1000 = n div 1000 \<and> m div 100 mod 10 = n div 100 mod 10"
    using nat_eq_div_mod [of "m div 100" "n div 100" 10] by (simp only: div_100_10)
  ultimately show ?thesis
    by blast
qed

lemma digits_4_less:
  fixes m n :: nat
  shows "m < n \<longleftrightarrow>
    m div 1000 < n div 1000 \<or> m div 1000 = n div 1000 \<and>
    (m div 100 mod 10 < n div 100 mod 10 \<or> m div 100 mod 10 = n div 100 mod 10 \<and>
    (m div 10 mod 10 < n div 10 mod 10 \<or> m div 10 mod 10 = n div 10 mod 10 \<and>
     m mod 10 < n mod 10))"
proof -
  have "m < n \<longleftrightarrow> m div 10 < n div 10 \<or> m div 10 = n div 10 \<and> m mod 10 < n mod 10"
    by (rule digits_2_less)
  moreover have "m div 10 < n div 10 \<longleftrightarrow>
      m div 100 < n div 100 \<or> m div 100 = n div 100 \<and> m div 10 mod 10 < n div 10 mod 10"
    using digits_2_less [of "m div 10" "n div 10"] by (simp only: div_10_10)
  moreover have "m div 100 < n div 100 \<longleftrightarrow>
      m div 1000 < n div 1000 \<or> m div 1000 = n div 1000 \<and> m div 100 mod 10 < n div 100 mod 10"
    using digits_2_less [of "m div 100" "n div 100"] by (simp only: div_100_10)
  moreover have "m div 10 = n div 10 \<longleftrightarrow> m div 100 = n div 100 \<and> m div 10 mod 10 = n div 10 mod 10"
    using nat_eq_div_mod [of "m div 10" "n div 10" 10] by (simp only: div_10_10)
  moreover have "m div 100 = n div 100 \<longleftrightarrow>
      m div 1000 = n div 1000 \<and> m div 100 mod 10 = n div 100 mod 10"
    using nat_eq_div_mod [of "m div 100" "n div 100" 10] by (simp only: div_100_10)
  ultimately show ?thesis
    by blast
qed

lemma fmt_2_less:
  assumes "0 \<le> a" "a < 100" "0 \<le> b" "b < 100"
  shows "fmt_0d 2 a < fmt_0d 2 b \<longleftrightarrow> a < b"
proof -
  have "fmt_0d 2 a < fmt_0d 2 b \<longleftrightarrow>
    nat a div 10 < nat b div 10 \<or> nat a div 10 = nat b div 10 \<and> nat a mod 10 < nat b mod 10"
    using assms by (simp add: fmt_2 digit_char_less digit_char_eq)
  also have "\<dots> \<longleftrightarrow> nat a < nat b"
    by (rule digits_2_less [symmetric])
  also have "\<dots> \<longleftrightarrow> a < b"
    using assms by auto
  finally show ?thesis .
qed

lemma fmt_2_eq:
  assumes "0 \<le> a" "a < 100" "0 \<le> b" "b < 100"
  shows "fmt_0d 2 a = fmt_0d 2 b \<longleftrightarrow> a = b"
proof -
  have "fmt_0d 2 a = fmt_0d 2 b \<longleftrightarrow>
    nat a div 10 = nat b div 10 \<and> nat a mod 10 = nat b mod 10"
    using assms by (simp add: fmt_2 digit_char_eq)
  also have "\<dots> \<longleftrightarrow> nat a = nat b"
    by (rule digits_2_eq [symmetric])
  also have "\<dots> \<longleftrightarrow> a = b"
    using assms by (simp add: eq_nat_nat_iff)
  finally show ?thesis .
qed

lemma fmt_4_less:
  assumes "0 \<le> a" "a < 10000" "0 \<le> b" "b < 10000"
  shows "fmt_0d 4 a < fmt_0d 4 b \<longleftrightarrow> a < b"
proof -
  have "fmt_0d 4 a < fmt_0d 4 b \<longleftrightarrow>
    nat a div 1000 < nat b div 1000 \<or> nat a div 1000 = nat b div 1000 \<and>
    (nat a div 100 mod 10 < nat b div 100 mod 10 \<or> nat a div 100 mod 10 = nat b div 100 mod 10 \<and>
    (nat a div 10 mod 10 < nat b div 10 mod 10 \<or> nat a div 10 mod 10 = nat b div 10 mod 10 \<and>
     nat a mod 10 < nat b mod 10))"
    using assms by (simp add: fmt_4 digit_char_less digit_char_eq)
  also have "\<dots> \<longleftrightarrow> nat a < nat b"
    by (rule digits_4_less [symmetric])
  also have "\<dots> \<longleftrightarrow> a < b"
    using assms by auto
  finally show ?thesis .
qed

lemma fmt_4_eq:
  assumes "0 \<le> a" "a < 10000" "0 \<le> b" "b < 10000"
  shows "fmt_0d 4 a = fmt_0d 4 b \<longleftrightarrow> a = b"
proof -
  have "fmt_0d 4 a = fmt_0d 4 b \<longleftrightarrow>
    nat a div 1000 = nat b div 1000 \<and> nat a div 100 mod 10 = nat b div 100 mod 10 \<and>
    nat a div 10 mod 10 = nat b div 10 mod 10 \<and> nat a mod 10 = nat b mod 10"
    using assms by (simp add: fmt_4 digit_char_eq)
  also have "\<dots> \<longleftrightarrow> nat a = nat b"
    by (rule digits_4_eq [symmetric])
  also have "\<dots> \<longleftrightarrow> a = b"
    using assms by (simp add: eq_nat_nat_iff)
  finally show ?thesis .
qed

lemma fmt_2_0: "fmt_0d 2 0 = ''00''"
  by (simp add: fmt_2 digit_char_def)

lemma fmt_2_1: "fmt_0d 2 1 = ''01''"
  by (simp add: fmt_2 digit_char_def)

lemma fmt_2_append_le:
  assumes "0 \<le> a" "a < 100" "0 \<le> b" "b < 100"
  shows "fmt_0d 2 a @ x \<le> fmt_0d 2 b @ y \<longleftrightarrow> a < b \<or> a = b \<and> x \<le> y"
  using assms by (simp add: append_le_iff length_fmt_2 fmt_2_less fmt_2_eq)

lemma zeros_le:
  assumes "0 \<le> n" "n < 100" "x \<le> y"
  shows "''00'' @ x \<le> fmt_0d 2 n @ y"
proof -
  have "fmt_0d 2 0 @ x \<le> fmt_0d 2 n @ y"
    using assms by (subst fmt_2_append_le) auto
  then show ?thesis
    by (simp only: fmt_2_0)
qed

lemma time_ge_midnight:
  assumes "0 \<le> h" "h < 100" "0 \<le> mi" "mi < 100" "0 \<le> s" "s < 100"
  shows "''00:00:00'' \<le> fmt_0d 2 h @ '':'' @ fmt_0d 2 mi @ '':'' @ fmt_0d 2 s @ rest"
proof -
  have "''00'' @ [] \<le> fmt_0d 2 s @ rest"
    using assms by (intro zeros_le) simp_all
  then have "'':'' @ ''00'' @ [] \<le> '':'' @ fmt_0d 2 s @ rest"
    by simp
  then have "''00'' @ '':'' @ ''00'' @ [] \<le> fmt_0d 2 mi @ '':'' @ fmt_0d 2 s @ rest"
    using assms by (intro zeros_le) simp_all
  then have "'':'' @ ''00'' @ '':'' @ ''00'' @ [] \<le> '':'' @ fmt_0d 2 mi @ '':'' @ fmt_0d 2 s @ rest"
    by simp
  then have "''00'' @ '':'' @ ''00'' @ '':'' @ ''00'' @ []
      \<le> fmt_0d 2 h @ '':'' @ fmt_0d 2 mi @ '':'' @ fmt_0d 2 s @ rest"
    using assms by (intro zeros_le) simp_all
  then show ?thesis
    by simp
qed

lemma day_ge_first:
  assumes "1 \<le> d" "d < 100" "0 \<le> h" "h < 100" "0 \<le> mi" "mi < 100" "0 \<le> s" "s < 100"
  shows "''-01T00:00:00''
    \<le> ''-'' @ fmt_0d 2 d @ ''T'' @ fmt_0d 2 h @ '':'' @ fmt_0d 2 mi @ '':'' @ fmt_0d 2 s @ rest"
proof -
  have "''T'' @ ''00:00:00'' \<le> ''T'' @ fmt_0d 2 h @ '':'' @ fmt_0d 2 mi @ '':'' @ fmt_0d 2 s @ rest"
    using time_ge_midnight [OF assms(3-8)] by simp
  then have "fmt_0d 2 1 @ ''T'' @ ''00:00:00''
    \<le> fmt_0d 2 d @ ''T'' @ fmt_0d 2 h @ '':'' @ fmt_0d 2 mi @ '':'' @ fmt_0d 2 s @ rest"
    using assms by (subst fmt_2_append_le) auto
  then show ?thesis
    by (simp add: fmt_2_1)
qed

lemma length_period_of:
  "0 \<le> y \<Longrightarrow> y < 10000 \<Longrightarrow> 0 \<le> m \<Longrightarrow> m < 100 \<Longrightarrow> length (period_of y m) = 7"
  by (simp add: period_of_def length_fmt_2 length_fmt_4)

lemma period_of_less:
  assumes "0 \<le> y" "y < 10000" "0 \<le> m" "m < 100" "0 \<le> y'" "y' < 10000" "0 \<le> m'" "m' < 100"
  shows "period_of y m < period_of y' m' \<longleftrightarrow> y < y' \<or> y = y' \<and> m < m'"
  using assms
  by (simp add: period_of_def append_less_iff length_fmt_4 fmt_4_less fmt_4_eq fmt_2_less)

lemma period_of_eq:
  assumes "0 \<le> y" "y < 10000" "0 \<le> m" "m < 100" "0 \<le> y'" "y' < 10000" "0 \<le> m'" "m' < 100"
  shows "period_of y m = period_of y' m' \<longleftrightarrow> y = y' \<and> m = m'"
  using assms
  by (simp add: period_of_def length_fmt_4 fmt_4_eq fmt_2_eq)

lemma month_window_period_of:
  "month_window year month =
     (period_of year month @ ''-01T00:00:00'',
      (if month = 12 then period_of (year + 1) 1 else period_of year (month + 1))
      @ ''-01T00:00:00'')"
  by (simp add: month_window_def period_of_def fmt_2_1)

lemma isoformat_period_of:
  "isoformat dt = period_of (dt_year dt) (dt_month dt) @
     (''-'' @ fmt_0d 2 (dt_day dt) @ ''T'' @ fmt_0d 2 (dt_hour dt) @ '':''
      @ fmt_0d 2 (dt_minute dt) @ '':'' @ fmt_0d 2 (dt_second dt)
      @ ((if dt_microsecond dt \<noteq> 0 then ''.'' @ fmt_0d 6 (dt_microsecond dt) else [])
         @ format_offset (dt_tzoffset dt)))"
  by (simp add: isoformat_def date_isoformat_def period_of_def)

lemma days_in_month_le: "days_in_month y m \<le> 31"
  by (simp add: days_in_month_def)

lemma in_month_window_isoformat:
  assumes v: "valid_datetime dt"
    and y: "1 \<le> year" "year \<le> 9999" and m: "1 \<le> month" "month \<le> 12"
    and r: "year < 9999 \<or> month < 12"
  shows "in_month_window year month (isoformat dt)
    \<longleftrightarrow> dt_year dt = year \<and> dt_month dt = month"
proof -
  define rest where "rest = ''-'' @ fmt_0d 2 (dt_day dt) @ ''T'' @ fmt_0d 2 (dt_hour dt) @ '':''
      @ fmt_0d 2 (dt_minute dt) @ '':'' @ fmt_0d 2 (dt_second dt)
      @ ((if dt_microsecond dt \<noteq> 0 then ''.'' @ fmt_0d 6 (dt_microsecond dt) else [])
         @ format_offset (dt_tzoffset dt))"
  define ny where "ny = (if month = 12 then year + 1 else year)"
  define nm where "nm = (if month = 12 then 1 else month + 1)"
  have ts: "isoformat dt = period_of (dt_year dt) (dt_month dt) @ rest"
    unfolding rest_def by (rule isoformat_period_of)
  have w: "month_window year month
    = (period_of year month @ ''-01T00:00:00'', period_of ny nm @ ''-01T00:00:00'')"
    by (simp add: month_window_period_of ny_def nm_def)
  have d: "1 \<le> dt_day dt" "dt_day dt < 100"
    using v days_in_month_le [of "dt_year dt" "dt_month dt"] by (simp_all add: valid_datetime_def)
  have t: "0 \<le> dt_hour dt" "dt_hour dt < 100" "0 \<le> dt_minute dt" "dt_minute dt < 100"
      "0 \<le> dt_second dt" "dt_second dt < 100"
    using v by (simp_all add: valid_datetime_def)
  have ge: "''-01T00:00:00'' \<le> rest"
    unfolding rest_def by (rule day_ge_first [OF d t])
  then have nless: "\<not> rest < ''-01T00:00:00''"
    by simp
  have e: "0 \<le> dt_year dt" "dt_year dt < 10000" "0 \<le> dt_month dt" "dt_month dt < 100"
      "1 \<le> dt_month dt" "dt_month dt \<le> 12"
    using v by (simp_all add: valid_datetime_def)
  have p: "0 \<le> year" "year < 10000" "0 \<le> month" "month < 100"
    using y m by simp_all
  have n: "0 \<le> ny" "ny < 10000" "0 \<le> nm" "nm < 100"
    using y m r by (auto simp add: ny_def nm_def)
  have lo: "period_of year month @ ''-01T00:00:00'' \<le> isoformat dt
    \<longleftrightarrow> year < dt_year dt \<or> year = dt_year dt \<and> month \<le> dt_month dt"
    unfolding ts using ge
    by (auto simp add: append_le_iff length_period_of period_of_less period_of_eq p e)
  have hi: "isoformat dt < period_of ny nm @ ''-01T00:00:00''
    \<longleftrightarrow> dt_year dt < ny \<or> dt_year dt = ny \<and> dt_month dt < nm"
    unfolding ts using nless
    by (auto simp add: append_less_iff length_period_of period_of_less period_of_eq n e)
  have "in_month_window year month (isoformat dt)
    \<longleftrightarrow> (year < dt_year dt \<or> year = dt_year dt \<and> month \<le> dt_month dt)
      \<and> (dt_year dt < ny \<or> dt_year dt = ny \<and> dt_month dt < nm)"
    by (simp only: in_month_window_def w prod.case lo hi)
  also have "\<dots> \<longleftrightarrow> dt_year dt = year \<and> dt_month dt = month"
    using e m by (auto simp add: ny_def nm_def)
  finally show ?thesis .
qed

lemma month_window_next:
  "snd (month_window year month)
     = fst (month_window (if month = 12 then year + 1 else year)
                         (if month = 12 then 1 else month + 1))"
  by (simp add: month_window_period_of)

lemma set_query_attendance:
  "set (query_attendance db employee_id in_range)
     = {r \<in> set (attendance_rows db). att_employee_id r = employee_id \<and> in_range (att_timestamp r)}"
  by (auto simp add: query_attendance_def)

text \<open>
  Claim C6, amended. The rows read for the payroll of (year, month) are the rows of the
  employee whose timestamp text lies in the half-open interval from
  \<^verbatim>\<open>year-month-01T00:00:00\<close> (included) to the start of the next month (excluded), and
  the end of the window of December is the start of the window of January of the next
  year. For every timestamp written by \<^verbatim>\<open>isoformat\<close> from a valid datetime (the text
  that \<^verbatim>\<open>sign_in\<close> and \<^verbatim>\<open>sign_out\<close> store), lying in the window of (year, month) is the
  same as having that year and that month. The period ranges over the years and months
  of the calendar, December 9999 set apart.
\<close>

theorem month_window_half_open:
  assumes "valid_datetime dt"
    and "1 \<le> year" "year \<le> 9999" "1 \<le> month" "month \<le> 12"
    and "year < 9999 \<or> month < 12"
  shows "(in_month_window year month (isoformat dt)
            \<longleftrightarrow> dt_year dt = year \<and> dt_month dt = month)
    \<and> (in_month_window year month ts
            \<longleftrightarrow> period_of year month @ ''-01T00:00:00'' \<le> ts
                \<and> ts < snd (month_window year month))
    \<and> snd (month_window year month)
          = fst (month_window (if month = 12 then year + 1 else year)
                              (if month = 12 then 1 else month + 1))
    \<and> set (query_attendance db employee_id (in_month_window year month))
          = {r \<in> set (attendance_rows db). att_employee_id r = employee_id
               \<and> in_month_window year month (att_timestamp r)}"
proof -
  have "in_month_window year month ts
      \<longleftrightarrow> period_of year month @ ''-01T00:00:00'' \<le> ts \<and> ts < snd (month_window year month)"
    by (simp add: in_month_window_def month_window_period_of)
  then show ?thesis
    using in_month_window_isoformat [OF assms] month_window_next [of year month]
      set_query_attendance [of db employee_id "in_month_window year month"]
    by blast
qed

lemma isoformat_naive_examples:
  "isoformat (naive 2024 12 31 23 59 59) = ''2024-12-31T23:59:59''"
  "isoformat (naive 2025 1 1 0 0 0) = ''2025-01-01T00:00:00''"
  by (simp_all add: isoformat_def naive_def date_isoformat_def format_offset_def fmt_defs)

lemma valid_naive_examples:
  "valid_datetime (naive 2024 12 31 23 59 59)"
  "valid_datetime (naive 2025 1 1 0 0 0)"
  by (simp_all add: valid_datetime_def naive_def days_in_month_def is_leap_def)

lemma naive_year_month:
  "dt_year (naive y m d hh mm ss) = y" "dt_month (naive y m d hh mm ss) = m"
  by (simp_all add: naive_def)

theorem month_window_half_open_witness:
  "valid_datetime (naive 2024 12 31 23 59 59) \<and> valid_datetime (naive 2025 1 1 0 0 0)
   \<and> in_month_window 2024 12 ''2024-12-31T23:59:59''
   \<and> \<not> in_month_window 2025 1 ''2024-12-31T23:59:59''
   \<and> in_month_window 2025 1 ''2025-01-01T00:00:00''
   \<and> \<not> in_month_window 2024 12 ''2025-01-01T00:00:00''
   \<and> month_window 2024 12 = (''2024-12-01T00:00:00'', ''2025-01-01T00:00:00'')"
proof -
  have w: "month_window 2024 12 = (''2024-12-01T00:00:00'', ''2025-01-01T00:00:00'')"
    by (simp add: month_window_def fmt_defs)
  have "in_month_window 2024 12 (isoformat (naive 2024 12 31 23 59 59))"
    using month_window_half_open [of "naive 2024 12 31 23 59 59" 2024 12, THEN conjunct1]
    by (simp add: valid_naive_examples naive_year_month)
  moreover have "\<not> in_month_window 2025 1 (isoformat (naive 2024 12 31 23 59 59))"
    using month_window_half_open [of "naive 2024 12 31 23 59 59" 2025 1, THEN conjunct1]
    by (simp add: valid_naive_examples naive_year_month)
  moreover have "in_month_window 2025 1 (isoformat (naive 2025 1 1 0 0 0))"
    using month_window_half_open [of "naive 2025 1 1 0 0 0" 2025 1, THEN conjunct1]
    by (simp add: valid_naive_examples naive_year_month)
  moreover have "\<not> in_month_window 2024 12 (isoformat (naive 2025 1 1 0 0 0))"
    using month_window_half_open [of "naive 2025 1 1 0 0 0" 2024 12, THEN conjunct1]
    by (simp add: valid_naive_examples naive_year_month)
  ultimately show ?thesis
    by (simp add: valid_naive_examples isoformat_naive_examples w)
qed

subsection \<open>Timestamps that are not in the form of \<^verbatim>\<open>isoformat\<close>\<close>

definition blank_db :: database where
  \<comment> \<open>Ann's first of January 2025, entered with a blank between date and time\<close>
  "blank_db =
     \<lparr>employees = [\<lparr>emp_id = 1, emp_full_name = ''Ann'', emp_rate = 10, emp_active = 1\<rparr>],
      attendance_rows =
        [\<lparr>att_employee_id = 1, att_event = ''sign_in'', att_timestamp = ''2025-01-01 00:00:00''\<rparr>,
         \<lparr>att_employee_id = 1, att_event = ''sign_out'', att_timestamp = ''2025-01-01 09:00:00''\<rparr>],
      adjustments = [],
      payroll_runs = []\<rparr>"

lemma month_window_2024_12:
  "month_window 2024 12 = (''2024-12-01T00:00:00'', ''2025-01-01T00:00:00'')"
  by (simp add: month_window_def fmt_defs)

lemma month_window_2025_01:
  "month_window 2025 1 = (''2025-01-01T00:00:00'', ''2025-02-01T00:00:00'')"
  by (simp add: month_window_def fmt_defs)

lemma month_window_9999_12:
  "month_window 9999 12 = (''9999-12-01T00:00:00'', ''10000-01-01T00:00:00'')"
  by (simp add: month_window_def fmt_defs)

lemma blank_parse:
  "parse_service ''2025-01-01 00:00:00'' = Some (naive 2025 1 1 0 0 0)"
  "parse_service ''2025-01-01 09:00:00'' = Some (naive 2025 1 1 9 0 0)"
  by (simp_all add: parse_defs naive_def)

lemma blank_rows_december:
  "query_attendance blank_db 1 (in_month_window 2024 12) = attendance_rows blank_db"
  by (simp add: query_attendance_def in_month_window_def month_window_2024_12 blank_db_def)

lemma blank_rows_january:
  "query_attendance blank_db 1 (in_month_window 2025 1) = []"
  by (simp add: query_attendance_def in_month_window_def month_window_2025_01 blank_db_def)

lemma blank_parsed:
  "parse_rows parse_service (attendance_rows blank_db) =
     [(''sign_in'', naive 2025 1 1 0 0 0), (''sign_out'', naive 2025 1 1 9 0 0)]"
  by (simp add: parse_rows_def List.map_filter_def blank_db_def blank_parse)

lemma blank_december:
  "aggregate_hours_by_day default_service blank_db 1 2024 12 = Inr [(''2025-01-01'', 9)]"
  by (simp add: aggregate_hours_by_day_def default_service_def blank_rows_december blank_parsed
      pair_loop.simps pair_step_def find_sign_out.simps time_defs fmt_defs Let_def naive_def)

lemma blank_january:
  "aggregate_hours_by_day default_service blank_db 1 2025 1 = Inr []"
  by (simp add: aggregate_hours_by_day_def default_service_def blank_rows_january
      parse_rows_def List.map_filter_def pair_loop.simps)

text \<open>
  Claim C6, as stated, fails for timestamp text that is not in that form. A timestamp with
  a blank between date and time, which the service parses, compares below every window
  start of its own day: the instant 2025-01-01 00:00:00 lies in the window of December
  2024 and not in the window of January 2025, and a day worked on the first of January is
  counted in December. The window of December 9999 ends at a text with a five-digit year,
  which compares below its start, so that window is empty.
\<close>

theorem blank_separated_boundary_counterexample:
  "parse_service ''2025-01-01 00:00:00'' = Some (naive 2025 1 1 0 0 0)
   \<and> in_month_window 2024 12 ''2025-01-01 00:00:00''
   \<and> \<not> in_month_window 2025 1 ''2025-01-01 00:00:00''
   \<and> aggregate_hours_by_day default_service blank_db 1 2024 12 = Inr [(''2025-01-01'', 9)]
   \<and> aggregate_hours_by_day default_service blank_db 1 2025 1 = Inr []
   \<and> parse_service ''9999-12-31T23:59:59'' = Some (naive 9999 12 31 23 59 59)
   \<and> \<not> in_month_window 9999 12 ''9999-12-31T23:59:59''"
  by (simp add: blank_parse blank_december blank_january)
    (simp add: in_month_window_def month_window_2024_12 month_window_2025_01
      month_window_9999_12 parse_defs naive_def)

section \<open>The controller's day and the service's bucket\<close>

definition late_db :: database where
  \<comment> \<open>Ann signs in at 08:00 and out half a second before midnight\<close>
  "late_db =
     \<lparr>employees = [\<lparr>emp_id = 1, emp_full_name = ''Ann'', emp_rate = 10, emp_active = 1\<rparr>],
      attendance_rows =
        [\<lparr>att_employee_id = 1, att_event = ''sign_in'', att_timestamp = ''2024-01-05T08:00:00''\<rparr>,
         \<lparr>att_employee_id = 1, att_event = ''sign_out'',
            att_timestamp = ''2024-01-05T23:59:59.500000''\<rparr>],
      adjustments = [],
      payroll_runs = []\<rparr>"

lemma late_rows_month:
  "query_attendance late_db 1 (in_month_window 2024 1) = attendance_rows late_db"
  by (simp add: query_attendance_def in_month_window_def month_window_2024_01 late_db_def)

lemma late_rows_day:
  "query_attendance late_db 1 (in_day_window ''2024-01-05'') =
     [\<lparr>att_employee_id = 1, att_event = ''sign_in'', att_timestamp = ''2024-01-05T08:00:00''\<rparr>]"
  by (simp add: query_attendance_def in_day_window_def late_db_def)

lemma late_parsed_month:
  "parse_rows parse_service (attendance_rows late_db) =
     [(''sign_in'', naive 2024 1 5 8 0 0),
      (''sign_out'', (naive 2024 1 5 23 59 59)\<lparr>dt_microsecond := 500000\<rparr>)]"
  by (simp add: parse_rows_def List.map_filter_def late_db_def parse_defs naive_def)

lemma late_parsed_day:
  "parse_rows parse_controller
     [\<lparr>att_employee_id = 1, att_event = ''sign_in'', att_timestamp = ''2024-01-05T08:00:00''\<rparr>] =
     [(''sign_in'', naive 2024 1 5 8 0 0)]"
  by (simp add: parse_rows_def List.map_filter_def parse_defs naive_def)

lemma late_day_hours:
  "aggregate_hours_by_day default_service late_db 1 2024 1
     = Inr [(''2024-01-05'', 575995 / 36000)]"
  by (simp add: aggregate_hours_by_day_def default_service_def late_rows_month late_parsed_month
      pair_loop.simps pair_step_def find_sign_out.simps time_defs fmt_defs Let_def naive_def)

lemma late_zero: "py_round2 (fl (0 / 3600)) = 0" "py_round2 (min 8 0) = 0"
  "py_round2 (max 0 (fl (0 - 8))) = 0"
  by (simp_all add: fl_defs Let_def)

lemma late_summary:
  "compute_hours_for_day late_db 1 ''2024-01-05''
     = Inr \<lparr>ds_date = ''2024-01-05'', ds_regular_hours = 0, ds_overtime_hours = 0,
            ds_total_hours = 0\<rparr>"
proof -
  have "seconds_loop [(''sign_in'', naive 2024 1 5 8 0 0)] 0 0 = Inr 0"
    by (simp add: seconds_loop.simps seconds_step_def find_sign_out.simps)
  then show ?thesis
    using late_zero by (simp add: compute_hours_for_day_def late_rows_day late_parsed_day Let_def)
qed

text \<open>
  Claim C10 fails on the code. The controller reads the events of a day with
  \<^verbatim>\<open>BETWEEN date + "T00:00:00" AND date + "T23:59:59"\<close> on the timestamp text, and the
  text that \<^verbatim>\<open>sign_out\<close> stores in the last second of a day carries a fraction, which
  compares above that end. For a sign-in at 08:00:00 and a sign-out at 23:59:59.500000 of
  the same day, \<open>compute_hours_for_day\<close> reads the sign-in alone and returns 0 hours, while
  the payroll service pairs the two events: its bucket for the day rounds to 16.00.
\<close>

theorem day_window_drops_last_second:
  "compute_hours_for_day late_db 1 ''2024-01-05''
     = Inr \<lparr>ds_date = ''2024-01-05'', ds_regular_hours = 0, ds_overtime_hours = 0,
            ds_total_hours = 0\<rparr>
   \<and> aggregate_hours_by_day default_service late_db 1 2024 1
     = Inr [(''2024-01-05'', 575995 / 36000)]
   \<and> py_round2 (bucket [(''2024-01-05'', 575995 / 36000)] ''2024-01-05'') = 16
   \<and> parse_controller ''2024-01-05T23:59:59.500000''
     = Some ((naive 2024 1 5 23 59 59)\<lparr>dt_microsecond := 500000\<rparr>)
   \<and> \<not> in_day_window ''2024-01-05'' ''2024-01-05T23:59:59.500000''"
  by (simp add: late_summary late_day_hours)
    (simp add: bucket_def in_day_window_def parse_defs naive_def fl_defs Let_def)

end
